theory Spec2Isabelle
  imports Main
begin

section \<open>Python text\<close>

text \<open>
  A Python \<open>str\<close> is a sequence of Unicode code points, so it is modelled as a list of
  natural numbers. ASCII literals are written through \<open>u\<close>; other literals are written
  as explicit code points (for instance U+4ECA U+5929 for the word "today").
\<close>

type_synonym ustr = "nat list"

definition u :: "string \<Rightarrow> ustr" where
  "u s = map of_char s"

text \<open>
  \<open>str.isspace\<close>, \<open>str.strip\<close> and the pattern \<open>\s\<close> share one table of white space
  (CPython, Unicode 14): the ASCII controls 9-13 and 28-31, the blank, NEL, NBSP and
  the Unicode space separators.
\<close>

definition isspace :: "nat \<Rightarrow> bool" where
  "isspace c \<longleftrightarrow> c \<in> set [9, 10, 11, 12, 13, 28, 29, 30, 31, 32, 133, 160, 5760,
     8192, 8193, 8194, 8195, 8196, 8197, 8198, 8199, 8200, 8201, 8202,
     8232, 8233, 8239, 8287, 12288]"

text \<open>
  \<open>\d\<close> and \<open>int()\<close> accept every decimal digit of Unicode (category Nd). Each script
  has its ten digits in one run starting at its zero; the list gives the zeros.
\<close>

definition digit_zeros :: "nat list" where
  "digit_zeros = [48, 1632, 1776, 1984, 2406, 2534, 2662, 2790, 2918, 3046, 3174, 3302,
     3430, 3558, 3664, 3792, 3872, 4160, 4240, 6112, 6160, 6470, 6608, 6784, 6800, 6992,
     7088, 7232, 7248, 42528, 43216, 43264, 43472, 43504, 43600, 44016, 65296, 66720,
     68912, 69734, 69872, 69942, 70096, 70384, 70736, 70864, 71248, 71360, 71472, 71904,
     72016, 72784, 73040, 73120, 92768, 92864, 93008, 120782, 120792, 120802, 120812,
     120822, 123200, 123632, 125264, 130032]"

definition digit_val :: "nat \<Rightarrow> nat option" where
  "digit_val c = (case filter (\<lambda>z. z \<le> c \<and> c < z + 10) digit_zeros of
                    [] \<Rightarrow> None | z # _ \<Rightarrow> Some (c - z))"

definition isdecimal :: "nat \<Rightarrow> bool" where
  "isdecimal c \<longleftrightarrow> digit_val c \<noteq> None"

text \<open>\<open>int(s)\<close> on a string of decimal digits, the only strings the patterns capture.\<close>

definition py_int :: "ustr \<Rightarrow> int" where
  "py_int s = foldl (\<lambda>a c. 10 * a + int (case digit_val c of None \<Rightarrow> 0 | Some d \<Rightarrow> d)) 0 s"

definition strip :: "ustr \<Rightarrow> ustr" where
  "strip s = rev (dropWhile isspace (rev (dropWhile isspace s)))"

definition startswith :: "ustr \<Rightarrow> ustr \<Rightarrow> bool" where
  "startswith s p \<longleftrightarrow> take (length p) s = p"

definition endswith :: "ustr \<Rightarrow> ustr \<Rightarrow> bool" where
  "endswith s p \<longleftrightarrow> length p \<le> length s \<and> drop (length s - length p) s = p"

text \<open>\<open>p in s\<close> on strings: \<open>p\<close> starts at some position of \<open>s\<close>.\<close>

fun contains :: "ustr \<Rightarrow> ustr \<Rightarrow> bool" where
  "contains [] p = (p = [])"
| "contains (c # cs) p = (startswith (c # cs) p \<or> contains cs p)"

definition ascii_lower :: "nat \<Rightarrow> nat" where
  "ascii_lower c = (if 65 \<le> c \<and> c \<le> 90 then c + 32 else c)"

definition ascii_upper :: "nat \<Rightarrow> nat" where
  "ascii_upper c = (if 97 \<le> c \<and> c \<le> 122 then c - 32 else c)"

section \<open>Regular expressions as the \<open>re\<close> module runs them\<close>

text \<open>
  The patterns of the crawler use literals, the classes \<open>\d\<close> and \<open>\s\<close>, one set
  \<open>[- ]\<close>, sequence, alternation, the greedy \<open>?\<close>, \<open>+\<close> and \<open>{m,n}\<close> on a single
  character class, capturing groups and the anchors \<open>^\<close> and \<open>$\<close>.
\<close>

datatype atom = Lit nat | Digit | Space | OneOf ustr

datatype rx =
    Eps
  | Atom atom
  | Seq rx rx
  | Alt rx rx
  | Opt rx
  | Plus atom
  | Rep atom nat nat
  | Grp nat rx
  | Bol
  | Eol

text \<open>
  Under \<open>re.IGNORECASE\<close> an ASCII letter of the pattern matches its two ASCII cases
  and the non-ASCII letters that case-fold to it: dotted capital I (U+0130) and
  dotless i (U+0131) for \<open>i\<close>, the Kelvin sign (U+212A) for \<open>k\<close>, long s (U+017F) for
  \<open>s\<close>. Every literal of the case-insensitive patterns below is ASCII.
\<close>

definition case_variants :: "nat \<Rightarrow> nat list" where
  "case_variants p =
     (if ascii_lower p = 105 then [105, 73, 304, 305]
      else if ascii_lower p = 107 then [107, 75, 8490]
      else if ascii_lower p = 115 then [115, 83, 383]
      else [ascii_lower p, ascii_upper p])"

definition lit_ok :: "bool \<Rightarrow> nat \<Rightarrow> nat \<Rightarrow> bool" where
  "lit_ok ic p c = (if ic then c \<in> set (case_variants p) else c = p)"

fun atom_ok :: "bool \<Rightarrow> atom \<Rightarrow> nat \<Rightarrow> bool" where
  "atom_ok ic (Lit p) c = lit_ok ic p c"
| "atom_ok ic Digit c = isdecimal c"
| "atom_ok ic Space c = isspace c"
| "atom_ok ic (OneOf ps) c = list_ex (\<lambda>p. lit_ok ic p c) ps"

text \<open>
  The state of a match attempt: the position in the subject, the text still to read
  and the groups captured so far (latest first).
\<close>

record mstate =
  pos :: nat
  rest :: ustr
  caps :: "(nat \<times> ustr) list"

definition advance :: "nat \<Rightarrow> mstate \<Rightarrow> mstate" where
  "advance k st = st\<lparr>pos := pos st + k, rest := drop k (rest st)\<rparr>"

definition run_len :: "bool \<Rightarrow> atom \<Rightarrow> ustr \<Rightarrow> nat" where
  "run_len ic a s = length (takeWhile (atom_ok ic a) s)"

text \<open>
  \<open>run ic r st\<close> lists every way \<open>r\<close> can match at \<open>st\<close>, in the order in which the
  backtracking matcher tries them: the left alternative first, the longer
  repetition first, the optional part present before absent. The matcher's answer
  is the head of the list.
\<close>

fun run :: "bool \<Rightarrow> rx \<Rightarrow> mstate \<Rightarrow> mstate list" where
  "run ic Eps st = [st]"
| "run ic (Atom a) st =
     (case rest st of [] \<Rightarrow> [] | c # cs \<Rightarrow> if atom_ok ic a c then [advance 1 st] else [])"
| "run ic (Seq a b) st = concat (map (run ic b) (run ic a st))"
| "run ic (Alt a b) st = run ic a st @ run ic b st"
| "run ic (Opt a) st = run ic a st @ [st]"
| "run ic (Plus a) st =
     map (\<lambda>k. advance k st) (rev [1 ..< Suc (run_len ic a (rest st))])"
| "run ic (Rep a lo hi) st =
     map (\<lambda>k. advance k st) (rev [lo ..< Suc (min hi (run_len ic a (rest st)))])"
| "run ic (Grp n r) st =
     map (\<lambda>st'. st'\<lparr>caps := (n, take (pos st' - pos st) (rest st)) # caps st'\<rparr>) (run ic r st)"
| "run ic Bol st = (if pos st = 0 then [st] else [])"
| "run ic Eol st = (if rest st = [] \<or> rest st = [10] then [st] else [])"

text \<open>A match object: group 0 and the numbered groups.\<close>

type_synonym rmatch = "ustr \<times> (nat \<times> ustr) list"

definition match_at :: "bool \<Rightarrow> rx \<Rightarrow> nat \<Rightarrow> ustr \<Rightarrow> rmatch option" where
  "match_at ic r i s =
     (case run ic r \<lparr>pos = i, rest = s, caps = []\<rparr> of
        [] \<Rightarrow> None
      | st # _ \<Rightarrow> Some (take (pos st - i) s, caps st))"

text \<open>\<open>re.match\<close> tries position 0 only; \<open>re.search\<close> tries every position from the left.\<close>

definition re_match :: "bool \<Rightarrow> rx \<Rightarrow> ustr \<Rightarrow> rmatch option" where
  "re_match ic r s = match_at ic r 0 s"

fun search_from :: "bool \<Rightarrow> rx \<Rightarrow> nat \<Rightarrow> ustr \<Rightarrow> rmatch option" where
  "search_from ic r i [] = match_at ic r i []"
| "search_from ic r i (c # cs) =
     (case match_at ic r i (c # cs) of
        Some m \<Rightarrow> Some m
      | None \<Rightarrow> search_from ic r (Suc i) cs)"

definition re_search :: "bool \<Rightarrow> rx \<Rightarrow> ustr \<Rightarrow> rmatch option" where
  "re_search ic r s = search_from ic r 0 s"

text \<open>
  \<open>m.group(n)\<close>; every group of the patterns below takes part in every match, so the
  \<open>None\<close> of a group that did not is not needed.
\<close>

definition match_group :: "rmatch \<Rightarrow> nat \<Rightarrow> ustr" where
  "match_group m n = (if n = 0 then fst m else case map_of (snd m) n of Some g \<Rightarrow> g | None \<Rightarrow> [])"

text \<open>Builders for a literal word and for a list of alternatives.\<close>

definition chars :: "ustr \<Rightarrow> rx" where
  "chars s = foldr (\<lambda>c r. Seq (Atom (Lit c)) r) s Eps"

definition lit :: "string \<Rightarrow> rx" where
  "lit s = chars (u s)"

definition seqs :: "rx list \<Rightarrow> rx" where
  "seqs rs = foldr Seq rs Eps"

fun alts :: "rx list \<Rightarrow> rx" where
  "alts [] = Eps"
| "alts [r] = r"
| "alts (r # rs) = Alt r (alts rs)"

section \<open>crawler.py: the text helpers\<close>

text \<open>\<open>re.sub(r"\s+", " ", s)\<close>: every maximal run of white space becomes one blank.\<close>

function sub_ws :: "ustr \<Rightarrow> ustr" where
  "sub_ws [] = []"
| "sub_ws (c # cs) =
     (if isspace c then 32 # sub_ws (dropWhile isspace cs) else c # sub_ws cs)"
  by pat_completeness auto
termination
  by (relation "measure length") (auto simp: length_dropWhile_le less_Suc_eq_le)

definition clean_text :: "ustr \<Rightarrow> ustr" where
  "clean_text s = strip (sub_ws s)"

text \<open>\<open>(\d+(?:\.\d+)?)\s?(GB|GiB|MB|MiB|KB)\<close>\<close>

definition size_pattern :: rx where
  "size_pattern =
     seqs [Grp 1 (seqs [Plus Digit, Opt (seqs [Atom (Lit 46), Plus Digit])]),
           Opt (Atom Space),
           Grp 2 (alts [lit ''GB'', lit ''GiB'', lit ''MB'', lit ''MiB'', lit ''KB''])]"

text \<open>The sentinel "unknown size" (U+672A U+77E5 U+5927 U+5C0F).\<close>

definition unknown_size :: ustr where
  "unknown_size = [26410, 30693, 22823, 23567]"

definition guess_size :: "ustr \<Rightarrow> ustr" where
  "guess_size text =
     (case re_search True size_pattern text of
        Some m \<Rightarrow> match_group m 0
      | None \<Rightarrow> if text \<noteq> [] then text else unknown_size)"

text \<open>
  The three patterns of \<open>q_patterns\<close>, in the order of the list:
  \<open>2160p|4K|UHD\<close>, then
  \<open>1080p|BDRip|BluRay|WEB[- ]?DL|WEB[- ]?Rip|WEBRip|WEBrip|HEVC|x265|x264\<close>, then
  \<open>720p\<close>.
\<close>

definition pat_2160 :: rx where
  "pat_2160 = alts [lit ''2160p'', lit ''4K'', lit ''UHD'']"

definition pat_1080 :: rx where
  "pat_1080 =
     alts [lit ''1080p'', lit ''BDRip'', lit ''BluRay'',
           seqs [lit ''WEB'', Opt (Atom (OneOf (u ''- ''))), lit ''DL''],
           seqs [lit ''WEB'', Opt (Atom (OneOf (u ''- ''))), lit ''Rip''],
           lit ''WEBRip'', lit ''WEBrip'', lit ''HEVC'', lit ''x265'', lit ''x264'']"

definition pat_720 :: rx where
  "pat_720 = lit ''720p''"

definition q_patterns :: "rx list" where
  "q_patterns = [pat_2160, pat_1080, pat_720]"

text \<open>The loop over the pattern list: the first pattern that is found anywhere wins.\<close>

fun first_found :: "rx list \<Rightarrow> ustr \<Rightarrow> ustr option" where
  "first_found [] text = None"
| "first_found (pat # pats) text =
     (case re_search True pat text of
        Some m \<Rightarrow> Some (match_group m 0)
      | None \<Rightarrow> first_found pats text)"

definition guess_quality :: "ustr \<Rightarrow> ustr" where
  "guess_quality text =
     (case first_found q_patterns text of Some q \<Rightarrow> q | None \<Rightarrow> u ''unknown'')"

section \<open>Exceptions\<close>

text \<open>
  The classes of exception that the crawler can meet, all below \<open>Exception\<close>:
  \<open>ValueError\<close> and \<open>OverflowError\<close> from dates and URLs, \<open>RuntimeError\<close> from a
  closed HTTP client, \<open>OSError\<close> from the snapshot file, \<open>HTTPError\<close> from the
  network, \<open>UnicodeEncodeError\<close> from a header that is not ASCII.
\<close>

datatype exn = ValueError | OverflowError | RuntimeError | OSError | HTTPError | UnicodeEncodeError

section \<open>Dates and times\<close>

datatype tzinfo = ZoneInfo ustr

record pydate =
  year :: int
  month :: int
  day :: int

record datetime = pydate +
  hour :: int
  minute :: int
  second :: int
  microsecond :: int
  tzinfo :: "tzinfo option"

definition TZ :: tzinfo where
  "TZ = ZoneInfo (u ''Asia/Taipei'')"

definition is_leap :: "int \<Rightarrow> bool" where
  "is_leap y \<longleftrightarrow> y mod 4 = 0 \<and> (y mod 100 \<noteq> 0 \<or> y mod 400 = 0)"

definition days_in_month :: "int \<Rightarrow> int \<Rightarrow> int" where
  "days_in_month y m =
     (if m = 2 then (if is_leap y then 29 else 28)
      else if m = 4 \<or> m = 6 \<or> m = 9 \<or> m = 11 then 30 else 31)"

text \<open>
  The constructor \<open>datetime(y, mo, d, hh, mm, tzinfo=tz)\<close> checks every field and
  raises \<open>ValueError\<close> on the first one out of range.
\<close>

definition mk_datetime :: "int \<Rightarrow> int \<Rightarrow> int \<Rightarrow> int \<Rightarrow> int \<Rightarrow> tzinfo \<Rightarrow> exn + datetime" where
  "mk_datetime y mo d hh mm tz =
     (if \<not> (1 \<le> y \<and> y \<le> 9999) then Inl ValueError
      else if \<not> (1 \<le> mo \<and> mo \<le> 12) then Inl ValueError
      else if \<not> (1 \<le> d \<and> d \<le> days_in_month y mo) then Inl ValueError
      else if \<not> (0 \<le> hh \<and> hh \<le> 23) then Inl ValueError
      else if \<not> (0 \<le> mm \<and> mm \<le> 59) then Inl ValueError
      else Inr \<lparr>year = y, month = mo, day = d, hour = hh, minute = mm, second = 0,
                microsecond = 0, tzinfo = Some tz\<rparr>)"

text \<open>\<open>now.date()\<close>\<close>

definition date_of :: "datetime \<Rightarrow> pydate" where
  "date_of dt = \<lparr>year = year dt, month = month dt, day = day dt\<rparr>"

text \<open>
  \<open>(now - timedelta(days=1)).date()\<close>: the day before, on the calendar of \<open>now\<close>;
  \<open>OverflowError\<close> before the first day of year 1.
\<close>

definition day_before :: "datetime \<Rightarrow> exn + pydate" where
  "day_before dt =
     (if 1 < day dt then Inr \<lparr>year = year dt, month = month dt, day = day dt - 1\<rparr>
      else if 1 < month dt then
        Inr \<lparr>year = year dt, month = month dt - 1,
             day = days_in_month (year dt) (month dt - 1)\<rparr>
      else if 1 < year dt then Inr \<lparr>year = year dt - 1, month = 12, day = 31\<rparr>
      else Inl OverflowError)"

text \<open>The words "today" (U+4ECA U+5929) and "yesterday" (U+6628 U+5929).\<close>

definition today_word :: ustr where
  "today_word = [20170, 22825]"

definition yesterday_word :: ustr where
  "yesterday_word = [26152, 22825]"

text \<open>\<open>^(today|yesterday)\s+(\d{1,2}):(\d{2})$\<close>\<close>

definition rel_time_pattern :: rx where
  "rel_time_pattern =
     seqs [Bol, Grp 1 (Alt (chars today_word) (chars yesterday_word)), Plus Space,
           Grp 2 (Rep Digit 1 2), Atom (Lit 58), Grp 3 (Rep Digit 2 2), Eol]"

text \<open>\<open>^(\d{4})-(\d{1,2})-(\d{1,2})\s+(\d{1,2}):(\d{2})$\<close>\<close>

definition abs_time_pattern :: rx where
  "abs_time_pattern =
     seqs [Bol, Grp 1 (Rep Digit 4 4), Atom (Lit 45), Grp 2 (Rep Digit 1 2), Atom (Lit 45),
           Grp 3 (Rep Digit 1 2), Plus Space, Grp 4 (Rep Digit 1 2), Atom (Lit 58),
           Grp 5 (Rep Digit 2 2), Eol]"

text \<open>
  \<open>_parse_cn_time(cell_text, now)\<close>. \<open>clock\<close> is what \<open>datetime.now(TZ)\<close> returns, used
  when no \<open>now\<close> is passed.
\<close>

definition parse_cn_time :: "datetime \<Rightarrow> ustr \<Rightarrow> datetime option \<Rightarrow> exn + datetime" where
  "parse_cn_time clock cell_text now_arg =
     (let now = (case now_arg of Some n \<Rightarrow> n | None \<Rightarrow> clock);
          t = strip cell_text
      in case re_match False rel_time_pattern t of
           Some m \<Rightarrow>
             (case (if match_group m 1 = today_word then Inr (date_of now) else day_before now) of
                Inl e \<Rightarrow> Inl e
              | Inr base \<Rightarrow>
                  mk_datetime (year base) (month base) (day base)
                    (py_int (match_group m 2)) (py_int (match_group m 3)) TZ)
         | None \<Rightarrow>
             (case re_match False abs_time_pattern t of
                Some m \<Rightarrow>
                  mk_datetime (py_int (match_group m 1)) (py_int (match_group m 2)) (py_int (match_group m 3))
                    (py_int (match_group m 4)) (py_int (match_group m 5)) TZ
              | None \<Rightarrow> Inr now))"

section \<open>The parse tree of BeautifulSoup\<close>

text \<open>
  A tree node is a string of text (\<open>NavigableString\<close>), a string that \<open>get_text\<close>
  leaves out (a comment, a declaration), or a tag with its name, its attribute
  dictionary and its children. The \<open>BeautifulSoup\<close> object is the tag at the root.
\<close>

datatype node = Text ustr | Other ustr | Tag ustr "(ustr \<times> ustr) list" "node list"

fun children :: "node \<Rightarrow> node list" where
  "children (Tag n a cs) = cs"
| "children _ = []"

fun attrs :: "node \<Rightarrow> (ustr \<times> ustr) list" where
  "attrs (Tag n a cs) = a"
| "attrs _ = []"

fun is_tag :: "ustr \<Rightarrow> node \<Rightarrow> bool" where
  "is_tag name (Tag n a cs) = (n = name)"
| "is_tag name _ = False"

text \<open>\<open>tag[key]\<close> for a key that the caller knows to be there.\<close>

definition attr :: "node \<Rightarrow> ustr \<Rightarrow> ustr" where
  "attr n key = (case map_of (attrs n) key of Some v \<Rightarrow> v | None \<Rightarrow> [])"

definition has_attr :: "node \<Rightarrow> ustr \<Rightarrow> bool" where
  "has_attr n key \<longleftrightarrow> map_of (attrs n) key \<noteq> None"

fun get_text :: "node \<Rightarrow> ustr" where
  "get_text (Text s) = s"
| "get_text (Other s) = []"
| "get_text (Tag n a cs) = concat (map get_text cs)"

text \<open>Every node below a node, in document order.\<close>

fun descendants :: "node \<Rightarrow> node list" where
  "descendants (Tag n a cs) = concat (map (\<lambda>c. c # descendants c) cs)"
| "descendants _ = []"

text \<open>\<open>tag.find_all(name, recursive=False)\<close>\<close>

definition find_all_direct :: "ustr \<Rightarrow> node \<Rightarrow> node list" where
  "find_all_direct name n = filter (is_tag name) (children n)"

definition is_a_href :: "node \<Rightarrow> bool" where
  "is_a_href n \<longleftrightarrow> is_tag (u ''a'') n \<and> has_attr n (u ''href'')"

text \<open>\<open>tag.find_all("a", href=True)\<close> and \<open>tag.find("a", href=True)\<close>\<close>

definition find_all_a_href :: "node \<Rightarrow> node list" where
  "find_all_a_href n = filter is_a_href (descendants n)"

definition find_a_href :: "node \<Rightarrow> node option" where
  "find_a_href n = List.find is_a_href (descendants n)"

text \<open>
  \<open>soup.select_one("table#listTable tbody#data_list")\<close>: the first element, in
  document order, that is a \<open>tbody\<close> with id \<open>data_list\<close> below a \<open>table\<close> with id
  \<open>listTable\<close>. The selector engine lowers the tag names and compares the ids as
  they are. \<open>inside\<close> says that such a table is among the ancestors.
\<close>

definition sel_matches :: "ustr \<Rightarrow> ustr \<Rightarrow> node \<Rightarrow> bool" where
  "sel_matches name ident n \<longleftrightarrow>
     (case n of Tag nm a cs \<Rightarrow> map ascii_lower nm = name \<and> attr n (u ''id'') = ident
      | _ \<Rightarrow> False)"

fun select_all :: "bool \<Rightarrow> node \<Rightarrow> node list" where
  "select_all inside (Tag n a cs) =
     (if inside \<and> sel_matches (u ''tbody'') (u ''data_list'') (Tag n a cs)
      then [Tag n a cs] else [])
     @ concat (map (select_all
         (inside \<or> sel_matches (u ''table'') (u ''listTable'') (Tag n a cs))) cs)"
| "select_all inside _ = []"

definition select_one :: "node \<Rightarrow> node option" where
  "select_one soup =
     (case concat (map (select_all False) (children soup)) of
        [] \<Rightarrow> None | t # _ \<Rightarrow> Some t)"

section \<open>Libraries and the world outside\<close>

record response =
  status_code :: int
  resp_text :: ustr

text \<open>
  The library functions that the crawler calls and that are not part of it: the two
  HTML parsers, \<open>str.lower\<close>, \<open>urllib.parse.urljoin\<close> (which raises \<open>ValueError\<close> on
  some malformed references), \<open>datetime.isoformat\<close> and \<open>str(e)\<close> of an exception.
\<close>

record pylib =
  html_parser :: "ustr \<Rightarrow> node"
  lxml_parser :: "ustr \<Rightarrow> node"
  str_lower :: "ustr \<Rightarrow> ustr"
  urljoin :: "ustr \<Rightarrow> ustr \<Rightarrow> exn + ustr"
  isoformat :: "datetime \<Rightarrow> ustr"
  exn_str :: "exn \<Rightarrow> ustr"

text \<open>
  The world during one call: the environment variable \<open>COMICAT_COOKIE\<close>, the clock,
  and what the network answers to a GET with given headers, or the exception it
  raises.
\<close>

record world =
  env_cookie :: ustr
  clock :: datetime
  http_get :: "(ustr \<times> ustr) list \<Rightarrow> ustr \<Rightarrow> exn + response"

text \<open>
  The file \<open>last_comicat_page.html\<close>: its content if it exists, and whether opening it
  for writing and for reading succeeds.
\<close>

record disk =
  content :: "ustr option"
  writable :: bool
  readable :: bool

text \<open>
  An \<open>httpx.Client\<close>: its default headers and whether it has been closed. A request on a
  closed client raises \<open>RuntimeError\<close> before anything is sent.
\<close>

record client =
  headers :: "(ustr \<times> ustr) list"
  is_closed :: bool

text \<open>
  \<open>httpx.Client(headers=...)\<close> encodes the name and the value of every header as ASCII
  when the client is built, and raises \<open>UnicodeEncodeError\<close> on a code point from 128 on.
\<close>

definition ascii_encodable :: "ustr \<Rightarrow> bool" where
  "ascii_encodable s = list_all (\<lambda>c. c < 128) s"

definition new_client :: "(ustr \<times> ustr) list \<Rightarrow> exn + client" where
  "new_client hs =
     (if list_all (\<lambda>(k, v). ascii_encodable k \<and> ascii_encodable v) hs
      then Inr \<lparr>headers = hs, is_closed = False\<rparr>
      else Inl UnicodeEncodeError)"

definition client_get :: "world \<Rightarrow> client \<Rightarrow> ustr \<Rightarrow> exn + response" where
  "client_get w c url =
     (if is_closed c then Inl RuntimeError else http_get w (headers c) url)"

section \<open>crawler.py: detecting the challenge page, resolving a detail page\<close>

definition BASE_URL :: ustr where
  "BASE_URL = u ''https://comicat.org/''"

text \<open>\<open>urljoin(BASE_URL, "today-1.html")\<close>\<close>

definition COMICAT_TODAY_URL :: ustr where
  "COMICAT_TODAY_URL = u ''https://comicat.org/today-1.html''"

definition markers :: "ustr list" where
  "markers = [u ''i'' @ [39] @ u ''m not a robot'', u ''captcha'', u ''visitor-test-form'',
              u ''visitor_test'']"

definition looks_like_captcha :: "pylib \<Rightarrow> ustr \<Rightarrow> bool" where
  "looks_like_captcha lib html =
     (let lower_html = str_lower lib html in list_ex (\<lambda>m. contains lower_html m) markers)"

definition magnet_prefix :: ustr where
  "magnet_prefix = u ''magnet:?xt=urn:btih:''"

definition is_download :: "pylib \<Rightarrow> ustr \<Rightarrow> bool" where
  "is_download lib href \<longleftrightarrow>
     endswith (str_lower lib href) (u ''.torrent'') \<or> contains (str_lower lib href) (u ''download'')"

text \<open>
  \<open>_extract_magnet_from_detail\<close>: two passes over the anchors that have an \<open>href\<close>,
  each returning the stripped \<open>href\<close> of the first anchor that passes its test.
\<close>

definition extract_magnet_from_detail :: "pylib \<Rightarrow> ustr \<Rightarrow> ustr" where
  "extract_magnet_from_detail lib detail_html =
     (let soup = lxml_parser lib detail_html;
          hrefs = map (\<lambda>a. strip (attr a (u ''href''))) (find_all_a_href soup)
      in case List.find (\<lambda>href. startswith href magnet_prefix) hrefs of
           Some href \<Rightarrow> href
         | None \<Rightarrow>
             (case List.find (is_download lib) hrefs of
                Some href \<Rightarrow> href
              | None \<Rightarrow> []))"

text \<open>
  \<open>_fetch_detail_link\<close>. \<open>fetch_detail_try\<close> is the body of the \<open>try\<close>: it raises, or
  returns a link, or falls out of the \<open>if\<close> (\<open>None\<close>). The handler swallows every
  exception and the function ends with \<open>return url\<close>.
\<close>

definition fetch_detail_try :: "pylib \<Rightarrow> world \<Rightarrow> client \<Rightarrow> ustr \<Rightarrow> exn + ustr option" where
  "fetch_detail_try lib w c url =
     (case client_get w c url of
        Inl e \<Rightarrow> Inl e
      | Inr r \<Rightarrow>
          if status_code r = 200 then
            (let magnet = extract_magnet_from_detail lib (resp_text r)
             in Inr (Some (if magnet \<noteq> [] then magnet else url)))
          else Inr None)"

definition fetch_detail_link :: "pylib \<Rightarrow> world \<Rightarrow> client \<Rightarrow> ustr \<Rightarrow> exn + ustr" where
  "fetch_detail_link lib w c url =
     (case fetch_detail_try lib w c url of
        Inl e \<Rightarrow> Inr url
      | Inr (Some link) \<Rightarrow> Inr link
      | Inr None \<Rightarrow> Inr url)"

section \<open>crawler.py: the table of today's releases\<close>

record AnimeInfo =
  title :: ustr
  url :: ustr
  size_str :: ustr
  quality :: ustr
  date :: ustr
  source :: ustr

text \<open>
  The loop of \<open>_parse_today_table\<close> over the rows, with \<open>results\<close> and
  \<open>detail_fetch_count\<close> as it goes. An exception raised while a row is read ends the
  whole function.
\<close>

fun parse_rows ::
  "pylib \<Rightarrow> world \<Rightarrow> datetime \<Rightarrow> client option \<Rightarrow> int \<Rightarrow> node list \<Rightarrow> AnimeInfo list \<Rightarrow> int
     \<Rightarrow> exn + AnimeInfo list" where
  "parse_rows lib w now client_for_detail max_detail [] results detail_fetch_count =
     Inr results"
| "parse_rows lib w now client_for_detail max_detail (tr # trs) results detail_fetch_count =
     (let tds = find_all_direct (u ''td'') tr in
      if length tds < 4 then
        parse_rows lib w now client_for_detail max_detail trs results detail_fetch_count
      else
        let date_text = clean_text (get_text (tds ! 0)) in
        case parse_cn_time (clock w) date_text (Some now) of
          Inl e \<Rightarrow> Inl e
        | Inr dt \<Rightarrow>
           (case find_a_href (tds ! 2) of
              None \<Rightarrow>
                parse_rows lib w now client_for_detail max_detail trs results detail_fetch_count
            | Some title_a \<Rightarrow>
               (let title = clean_text (get_text title_a) in
                case urljoin lib BASE_URL (strip (attr title_a (u ''href''))) of
                  Inl e \<Rightarrow> Inl e
                | Inr detail_url \<Rightarrow>
                   (let size_text = guess_size (clean_text (get_text (tds ! 3)));
                        quality = guess_quality title
                    in case (case client_for_detail of
                               Some c \<Rightarrow>
                                 if detail_fetch_count < max_detail then
                                   (case fetch_detail_link lib w c detail_url of
                                      Inl e \<Rightarrow> Inl e
                                    | Inr link \<Rightarrow> Inr (link, detail_fetch_count + 1))
                                 else Inr (detail_url, detail_fetch_count)
                             | None \<Rightarrow> Inr (detail_url, detail_fetch_count)) of
                         Inl e \<Rightarrow> Inl e
                       | Inr (final_url, count') \<Rightarrow>
                           parse_rows lib w now client_for_detail max_detail trs
                             (results @
                               [\<lparr>title = title, url = final_url, size_str = size_text,
                                 quality = quality, date = isoformat lib dt,
                                 source = u ''comicat.org''\<rparr>])
                             count'))))"

definition parse_today_table ::
  "pylib \<Rightarrow> world \<Rightarrow> ustr \<Rightarrow> client option \<Rightarrow> int \<Rightarrow> exn + AnimeInfo list" where
  "parse_today_table lib w html client_for_detail max_detail =
     (let soup = html_parser lib html in
      case select_one soup of
        None \<Rightarrow> Inr []
      | Some table \<Rightarrow>
          (let rows = find_all_direct (u ''tr'') table;
               now = clock w
           in parse_rows lib w now client_for_detail max_detail rows [] 0))"

section \<open>crawler.py: the entry point\<close>

definition base_headers :: "(ustr \<times> ustr) list" where
  "base_headers =
     [(u ''User-Agent'',
       u ''Mozilla/5.0 (Windows NT 10.0; Win64; x64) AppleWebKit/537.36 (KHTML, like Gecko) Chrome/123.0.0.0 Safari/537.36''),
      (u ''Accept'', u ''text/html,application/xhtml+xml,application/xml;q=0.9,*/*;q=0.8''),
      (u ''Accept-Language'', u ''zh-CN,zh;q=0.9,en;q=0.8''),
      (u ''Connection'', u ''keep-alive'')]"

definition make_headers :: "world \<Rightarrow> (ustr \<times> ustr) list" where
  "make_headers w =
     (let cookie_header = strip (env_cookie w) in
      if cookie_header \<noteq> [] then base_headers @ [(u ''Cookie'', cookie_header)]
      else base_headers)"

text \<open>
  Writing the page to the snapshot file inside \<open>try\<close>/\<open>except Exception\<close>: the file
  holds the page afterwards, or is as before when it cannot be opened for writing
  (the warning that is printed is not modelled).
\<close>

definition write_snapshot :: "disk \<Rightarrow> ustr \<Rightarrow> disk" where
  "write_snapshot d html = (if writable d then d\<lparr>content := Some html\<rparr> else d)"

text \<open>
  The snapshot file is opened in text mode without a \<open>newline\<close> argument. On reading,
  every \<open>CR LF\<close> and every other \<open>CR\<close> comes back as one \<open>LF\<close>; on writing, on a POSIX
  system, the text goes to the file as it is.
\<close>

fun universal_newlines :: "ustr \<Rightarrow> ustr" where
  "universal_newlines [] = []"
| "universal_newlines [c] = [if c = 13 then 10 else c]"
| "universal_newlines (c # d # cs) =
     (if c = 13 \<and> d = 10 then 10 # universal_newlines cs
      else if c = 13 then 10 # universal_newlines (d # cs)
      else c # universal_newlines (d # cs))"

text \<open>The debug messages, by what they say; their Chinese text plays no part.\<close>

datatype debug_msg = Msg_ok | Msg_used_cache | Msg_no_cache | Msg_no_items

text \<open>
  The body of the \<open>with httpx.Client(...) as client\<close> block: it raises, or returns
  early from the function with a result, or falls through with the HTML to parse
  and the debug message.
\<close>

datatype block_result = Return "AnimeInfo list \<times> debug_msg" | Fall_through ustr debug_msg

definition with_block :: "pylib \<Rightarrow> world \<Rightarrow> client \<Rightarrow> disk \<Rightarrow> (exn + block_result) \<times> disk" where
  "with_block lib w c d =
     (case client_get w c COMICAT_TODAY_URL of
        Inl e \<Rightarrow> (Inl e, d)
      | Inr resp \<Rightarrow>
          (let html = resp_text resp;
               d1 = write_snapshot d html
           in if looks_like_captcha lib html then
                (case content d1 of
                   Some cached \<Rightarrow>
                     if readable d1
                     then (Inr (Fall_through (universal_newlines cached) Msg_used_cache), d1)
                     else (Inl OSError, d1)
                 | None \<Rightarrow> (Inr (Return ([], Msg_no_cache)), d1))
              else
                (let d2 = write_snapshot d1 html
                 in (Inr (Fall_through html Msg_ok), d2))))"

text \<open>
  \<open>scrape_comicat_today\<close>. The client is built before the \<open>with\<close> block is entered, so
  an exception of its construction leaves the function at once. Leaving the \<open>with\<close> block
  closes the client, whichever way the block ends; the table is parsed after the block,
  with the client it has left.
\<close>

definition scrape_comicat_today ::
  "pylib \<Rightarrow> world \<Rightarrow> disk \<Rightarrow> (exn + AnimeInfo list \<times> debug_msg) \<times> disk" where
  "scrape_comicat_today lib w d =
     (case new_client (make_headers w) of
        Inl e \<Rightarrow> (Inl e, d)
      | Inr client \<Rightarrow>
          (let (r, d') = with_block lib w client d;
               client = client\<lparr>is_closed := True\<rparr>
           in case r of
                Inl e \<Rightarrow> (Inl e, d')
              | Inr (Return res) \<Rightarrow> (Inr res, d')
              | Inr (Fall_through html debug_msg) \<Rightarrow>
                  (case parse_today_table lib w html (Some client) 12 of
                     Inl e \<Rightarrow> (Inl e, d')
                   | Inr items \<Rightarrow>
                       if items = [] then (Inr ([], Msg_no_items), d')
                       else (Inr (take 5 items, debug_msg), d'))))"

section \<open>main.py: the endpoint\<close>

datatype json = JStr ustr | JArr "json list" | JObj "(string \<times> json) list"

text \<open>How the framework serialises an \<open>AnimeInfo\<close>.\<close>

definition info_json :: "AnimeInfo \<Rightarrow> json" where
  "info_json a =
     JObj [(''title'', JStr (title a)), (''url'', JStr (url a)), (''size'', JStr (size_str a)),
           (''quality'', JStr (quality a)), (''date'', JStr (date a)),
           (''source'', JStr (source a))]"

text \<open>
  \<open>results\<close> is the pair that \<open>scrape_comicat_today\<close> returns. \<open>not results\<close> asks whether
  the tuple is empty, and a pair never is; \<open>results[0]\<close> is its first component, the
  list of records.
\<close>

definition tuple_is_empty :: "'a \<times> 'b \<Rightarrow> bool" where
  "tuple_is_empty results = False"

definition scrape_latest :: "pylib \<Rightarrow> world \<Rightarrow> disk \<Rightarrow> json" where
  "scrape_latest lib w d =
     (case fst (scrape_comicat_today lib w d) of
        Inl e \<Rightarrow> JObj [(''error'', JStr (u ''Scrape failed: '' @ exn_str lib e))]
      | Inr results \<Rightarrow>
          if tuple_is_empty results then
            JObj [(''error'', JStr (u ''No new anime releases today.''))]
          else JArr (map info_json (fst results)))"

section \<open>Notions used to state the properties\<close>

text \<open>
  The words that a pattern matches, leaving the anchors aside, and what it means for a
  pattern to be found somewhere in a text and for a word to be its leftmost
  occurrence.
\<close>

fun lang :: "bool \<Rightarrow> rx \<Rightarrow> ustr set" where
  "lang ic Eps = {[]}"
| "lang ic (Atom a) = {[c] | c. atom_ok ic a c}"
| "lang ic (Seq a b) = {v @ w | v w. v \<in> lang ic a \<and> w \<in> lang ic b}"
| "lang ic (Alt a b) = lang ic a \<union> lang ic b"
| "lang ic (Opt a) = insert [] (lang ic a)"
| "lang ic (Plus a) = {w. w \<noteq> [] \<and> list_all (atom_ok ic a) w}"
| "lang ic (Rep a lo hi) = {w. lo \<le> length w \<and> length w \<le> hi \<and> list_all (atom_ok ic a) w}"
| "lang ic (Grp n r) = lang ic r"
| "lang ic Bol = {[]}"
| "lang ic Eol = {[]}"

fun anchor_free :: "rx \<Rightarrow> bool" where
  "anchor_free (Seq a b) = (anchor_free a \<and> anchor_free b)"
| "anchor_free (Alt a b) = (anchor_free a \<and> anchor_free b)"
| "anchor_free (Opt a) = anchor_free a"
| "anchor_free (Grp n r) = anchor_free r"
| "anchor_free Bol = False"
| "anchor_free Eol = False"
| "anchor_free _ = True"

definition occurs :: "bool \<Rightarrow> rx \<Rightarrow> ustr \<Rightarrow> bool" where
  "occurs ic r t \<longleftrightarrow> (\<exists>pre w post. t = pre @ w @ post \<and> w \<in> lang ic r)"

definition leftmost :: "bool \<Rightarrow> rx \<Rightarrow> ustr \<Rightarrow> ustr \<Rightarrow> bool" where
  "leftmost ic r t w \<longleftrightarrow>
     w \<in> lang ic r \<and>
     (\<exists>pre post. t = pre @ w @ post \<and>
        (\<forall>pre' w' post'. t = pre' @ w' @ post' \<and> w' \<in> lang ic r \<longrightarrow> length pre \<le> length pre'))"

text \<open>
  The rows of the listing table, and the rows among them that give a record: four
  cells or more, and an anchor with an \<open>href\<close> in the third.
\<close>

definition table_rows :: "pylib \<Rightarrow> ustr \<Rightarrow> node list" where
  "table_rows lib html =
     (case select_one (html_parser lib html) of
        None \<Rightarrow> []
      | Some table \<Rightarrow> find_all_direct (u ''tr'') table)"

definition cells :: "node \<Rightarrow> node list" where
  "cells tr = find_all_direct (u ''td'') tr"

definition retained :: "node \<Rightarrow> bool" where
  "retained tr \<longleftrightarrow> 4 \<le> length (cells tr) \<and> find_a_href (cells tr ! 2) \<noteq> None"

definition row_anchor :: "node \<Rightarrow> node" where
  "row_anchor tr = (case find_a_href (cells tr ! 2) of Some a \<Rightarrow> a | None \<Rightarrow> Text [])"

definition detail_url_of :: "pylib \<Rightarrow> node \<Rightarrow> exn + ustr" where
  "detail_url_of lib tr = urljoin lib BASE_URL (strip (attr (row_anchor tr) (u ''href'')))"

text \<open>
  What the record \<open>r\<close> of a retained row \<open>tr\<close> must hold when \<open>c\<close> detail pages have been
  fetched before the row is read: title, size, quality, date and source from the cells,
  and as its URL the resolver's result while \<open>c\<close> is below the cap, the detail URL after.
\<close>

definition row_gives ::
  "pylib \<Rightarrow> world \<Rightarrow> datetime \<Rightarrow> client option \<Rightarrow> int \<Rightarrow> int \<Rightarrow> node \<Rightarrow> AnimeInfo \<Rightarrow> bool" where
  "row_gives lib w now client_for_detail max_detail c tr r \<longleftrightarrow>
     title r = clean_text (get_text (row_anchor tr)) \<and>
     size_str r = guess_size (clean_text (get_text (cells tr ! 3))) \<and>
     quality r = guess_quality (title r) \<and>
     source r = u ''comicat.org'' \<and>
     (\<exists>dt. parse_cn_time (clock w) (clean_text (get_text (cells tr ! 0))) (Some now) = Inr dt \<and>
           date r = isoformat lib dt) \<and>
     (\<exists>d. detail_url_of lib tr = Inr d \<and>
          (case client_for_detail of
             Some cl \<Rightarrow>
               if c < max_detail then fetch_detail_link lib w cl d = Inr (url r) else url r = d
           | None \<Rightarrow> url r = d))"

text \<open>The targets of the hyperlinks of a detail page, in document order.\<close>

definition page_hrefs :: "pylib \<Rightarrow> ustr \<Rightarrow> ustr list" where
  "page_hrefs lib html =
     map (\<lambda>a. strip (attr a (u ''href''))) (find_all_a_href (lxml_parser lib html))"

definition is_magnet :: "ustr \<Rightarrow> bool" where
  "is_magnet href \<longleftrightarrow> startswith href magnet_prefix"

section \<open>Sample pages\<close>

text \<open>
  A listing row as the site writes it: time, category, title link, size. A listing
  page holds the table with the two ids; a detail page holds anchors.
\<close>

definition td :: "node list \<Rightarrow> node" where
  "td cs = Tag (u ''td'') [] cs"

definition sample_row :: "ustr \<Rightarrow> ustr \<Rightarrow> ustr \<Rightarrow> ustr \<Rightarrow> node" where
  "sample_row time_text href title_text size_text =
     Tag (u ''tr'') []
       [td [Text time_text], td [Text (u ''Anime'')],
        td [Tag (u ''a'') [(u ''href'', href)] [Text title_text]], td [Text size_text]]"

definition sample_listing :: "node list \<Rightarrow> node" where
  "sample_listing rows =
     Tag (u ''[document]'') []
       [Tag (u ''table'') [(u ''id'', u ''listTable'')]
          [Tag (u ''tbody'') [(u ''id'', u ''data_list'')] rows]]"

definition sample_detail :: "ustr list \<Rightarrow> node" where
  "sample_detail hrefs =
     Tag (u ''[document]'') []
       [Tag (u ''html'') []
          [Tag (u ''body'') [] (map (\<lambda>h. Tag (u ''a'') [(u ''href'', h)] [Text (u ''link'')]) hrefs)]]"

text \<open>
  \<open>isoformat\<close> for a time in the zone of Taipei, eight hours ahead of UTC, with no
  microseconds.
\<close>

definition two_digits :: "int \<Rightarrow> ustr" where
  "two_digits n = [48 + nat (n div 10 mod 10), 48 + nat (n mod 10)]"

definition isoformat_taipei :: "datetime \<Rightarrow> ustr" where
  "isoformat_taipei dt =
     two_digits (year dt div 100) @ two_digits (year dt) @ u ''-'' @ two_digits (month dt)
     @ u ''-'' @ two_digits (day dt) @ u ''T'' @ two_digits (hour dt) @ u '':''
     @ two_digits (minute dt) @ u '':'' @ two_digits (second dt) @ u ''+08:00''"

text \<open>
  A library whose parsers return the given trees, with \<open>str.lower\<close> and \<open>urljoin\<close> as
  they behave on ASCII text and on a reference that is a file name.
\<close>

definition sample_lib :: "node \<Rightarrow> node \<Rightarrow> pylib" where
  "sample_lib listing detail =
     \<lparr>html_parser = (\<lambda>html. listing), lxml_parser = (\<lambda>html. detail),
      str_lower = map ascii_lower, urljoin = (\<lambda>base ref. Inr (base @ ref)),
      isoformat = isoformat_taipei, exn_str = (\<lambda>e. u ''error'')\<rparr>"

definition sample_now :: datetime where
  "sample_now = \<lparr>year = 2025, month = 10, day = 26, hour = 10, minute = 0, second = 0,
                 microsecond = 0, tzinfo = Some TZ\<rparr>"

text \<open>A network that answers every GET with status 200 and the given two pages.\<close>

definition sample_world :: "ustr \<Rightarrow> ustr \<Rightarrow> world" where
  "sample_world listing_html detail_html =
     \<lparr>env_cookie = [], clock = sample_now,
      http_get = (\<lambda>hs url. if url = COMICAT_TODAY_URL
                    then Inr \<lparr>status_code = 200, resp_text = listing_html\<rparr>
                    else Inr \<lparr>status_code = 200, resp_text = detail_html\<rparr>)\<rparr>"

definition open_client :: client where
  "open_client = \<lparr>headers = base_headers, is_closed = False\<rparr>"

definition sample_magnet :: ustr where
  "sample_magnet = u ''magnet:?xt=urn:btih:abc''"

text \<open>The time cells "today 21:41" and "today 25:00".\<close>

definition today_2141 :: ustr where
  "today_2141 = today_word @ u '' 21:41''"

definition today_2500 :: ustr where
  "today_2500 = today_word @ u '' 25:00''"

text \<open>A page that is a challenge, and a page with the listing table.\<close>

definition blocked_page :: ustr where
  "blocked_page = u ''<html>captcha</html>''"

definition good_page :: ustr where
  "good_page = u ''<table id=listTable><tbody id=data_list></tbody></table>''"

text \<open>A snapshot file left by an earlier fetch of the listing.\<close>

definition sample_disk :: disk where
  "sample_disk = \<lparr>content = Some good_page, writable = True, readable = True\<rparr>"

definition sample_title :: ustr where
  "sample_title = u ''Ep1 1080p''"

definition sample_size :: ustr where
  "sample_size = u ''567.6MB''"

definition row1 :: node where
  "row1 = sample_row today_2141 (u ''show-1.html'') sample_title sample_size"

definition row2 :: node where
  "row2 = sample_row today_2141 (u ''show-2.html'') sample_title sample_size"

definition row3 :: node where
  "row3 = sample_row today_2141 (u ''show-3.html'') sample_title sample_size"

text \<open>A row whose title link has only blanks as its text.\<close>

definition row_blank_title :: node where
  "row_blank_title = sample_row today_2141 (u ''show-4.html'') (u ''  '') sample_size"

text \<open>A row with a title link and the time "today 25:00".\<close>

definition row_bad_time :: node where
  "row_bad_time = sample_row today_2500 (u ''show-2.html'') sample_title sample_size"

text \<open>A row whose size cell holds a text with no size in it, and one whose size cell is blank.\<close>

definition row_na_size :: node where
  "row_na_size = sample_row today_2141 (u ''show-5.html'') sample_title (u ''n/a'')"

definition row_blank_size :: node where
  "row_blank_size = sample_row today_2141 (u ''show-6.html'') sample_title (u ''  '')"

text \<open>A row with four cells, no link in the third, and the time "today 25:00".\<close>

definition row_no_link :: node where
  "row_no_link =
     Tag (u ''tr'') []
       [td [Text today_2500], td [Text (u ''Anime'')], td [Text (u ''no link'')],
        td [Text sample_size]]"

text \<open>A detail page with three links, the second a magnet link with blanks around it.\<close>

definition detail_dom :: node where
  "detail_dom = sample_detail [u ''/about.html'', u '' magnet:?xt=urn:btih:abc '', u ''/file.torrent'']"

definition sample_record :: "ustr \<Rightarrow> ustr \<Rightarrow> AnimeInfo" where
  "sample_record t link =
     \<lparr>title = t, url = link, size_str = sample_size,
      quality = (if t = sample_title then u ''1080p'' else u ''unknown''),
      date = u ''2025-10-26T21:41:00+08:00'', source = u ''comicat.org''\<rparr>"

definition show_url :: "string \<Rightarrow> ustr" where
  "show_url name = u ''https://comicat.org/'' @ u name"

section \<open>The matcher finds exactly the words of the pattern\<close>

lemma pos_advance [simp]: "pos (advance k st) = pos st + k"
  and rest_advance [simp]: "rest (advance k st) = drop k (rest st)"
  and caps_advance [simp]: "caps (advance k st) = caps st"
  by (simp_all add: advance_def)

lemma take_run_ok:
  assumes "k \<le> run_len ic a s"
  shows "list_all (atom_ok ic a) (take k s) \<and> length (take k s) = k"
proof -
  let ?p = "takeWhile (atom_ok ic a) s"
  have le: "k \<le> length ?p" using assms by (simp add: run_len_def)
  have "length ?p \<le> length s" by (rule length_takeWhile_le)
  hence len: "length (take k s) = k" using le by simp
  have "take k s = take k (?p @ dropWhile (atom_ok ic a) s)"
    by (simp only: takeWhile_dropWhile_id)
  also have "\<dots> = take k ?p @ take (k - length ?p) (dropWhile (atom_ok ic a) s)"
    by (rule take_append)
  also have "\<dots> = take k ?p" using le by simp
  finally have "take k s = take k ?p" .
  moreover have "list_all (atom_ok ic a) ?p"
    by (simp add: list_all_iff) (meson set_takeWhileD)
  hence "list_all (atom_ok ic a) (take k ?p)"
    by (auto simp: list_all_iff dest: in_set_takeD)
  ultimately show ?thesis using len by simp
qed

lemma run_len_prefix:
  assumes "list_all (atom_ok ic a) w"
  shows "length w \<le> run_len ic a (w @ s')"
proof -
  have "takeWhile (atom_ok ic a) (w @ s') = w @ takeWhile (atom_ok ic a) s'"
    using assms by (simp add: list_all_iff takeWhile_append2)
  thus ?thesis by (simp add: run_len_def)
qed

lemma in_run_Plus:
  "st' \<in> set (run ic (Plus a) st) \<longleftrightarrow>
     (\<exists>k. 1 \<le> k \<and> k \<le> run_len ic a (rest st) \<and> st' = advance k st)"
  by (auto simp del: upt_Suc)

lemma in_run_Rep:
  "st' \<in> set (run ic (Rep a lo hi) st) \<longleftrightarrow>
     (\<exists>k. lo \<le> k \<and> k \<le> hi \<and> k \<le> run_len ic a (rest st) \<and> st' = advance k st)"
  by (force simp del: upt_Suc simp: less_Suc_eq_le)

lemma run_sound:
  "st' \<in> set (run ic r st) \<Longrightarrow>
     \<exists>w. w \<in> lang ic r \<and> rest st = w @ rest st' \<and> pos st' = pos st + length w"
proof (induction r arbitrary: st st')
  case Eps
  then show ?case by simp
next
  case (Atom a)
  show ?case
  proof (cases "rest st")
    case Nil
    with Atom show ?thesis by simp
  next
    case (Cons c cs)
    with Atom have ok: "atom_ok ic a c" and e: "st' = advance 1 st"
      by (auto split: if_splits)
    have "[c] \<in> lang ic (Atom a)" using ok by simp
    moreover have "rest st = [c] @ rest st'" using e Cons by simp
    moreover have "pos st' = pos st + length [c]" using e by simp
    ultimately show ?thesis by blast
  qed
next
  case (Seq a b)
  from Seq.prems obtain st1 where s1: "st1 \<in> set (run ic a st)" and s2: "st' \<in> set (run ic b st1)"
    by auto
  from Seq.IH(1)[OF s1] obtain v where v: "v \<in> lang ic a" "rest st = v @ rest st1"
    "pos st1 = pos st + length v" by blast
  from Seq.IH(2)[OF s2] obtain w where w: "w \<in> lang ic b" "rest st1 = w @ rest st'"
    "pos st' = pos st1 + length w" by blast
  have "v @ w \<in> lang ic (Seq a b)" using v(1) w(1) by auto
  moreover have "rest st = (v @ w) @ rest st'" using v(2) w(2) by simp
  moreover have "pos st' = pos st + length (v @ w)" using v(3) w(3) by simp
  ultimately show ?case by blast
next
  case (Alt a b)
  then show ?case by (auto; blast)
next
  case (Opt a)
  then show ?case by (auto; blast)
next
  case (Plus a)
  from Plus.prems obtain k where k: "1 \<le> k" "k \<le> run_len ic a (rest st)" "st' = advance k st"
    unfolding in_run_Plus by blast
  from take_run_ok[OF k(2)] have t: "list_all (atom_ok ic a) (take k (rest st))"
    "length (take k (rest st)) = k" by simp_all
  have "take k (rest st) \<noteq> []" using t(2) k(1) by auto
  hence "take k (rest st) \<in> lang ic (Plus a)" using t(1) by simp
  moreover have "rest st = take k (rest st) @ rest st'" using k(3) by simp
  moreover have "pos st' = pos st + length (take k (rest st))" using k(3) t(2) by simp
  ultimately show ?case by blast
next
  case (Rep a lo hi)
  from Rep.prems obtain k where k: "lo \<le> k" "k \<le> hi" "k \<le> run_len ic a (rest st)"
    "st' = advance k st" unfolding in_run_Rep by blast
  from take_run_ok[OF k(3)] have t: "list_all (atom_ok ic a) (take k (rest st))"
    "length (take k (rest st)) = k" by simp_all
  have "take k (rest st) \<in> lang ic (Rep a lo hi)" using t k(1,2) by simp
  moreover have "rest st = take k (rest st) @ rest st'" using k(4) by simp
  moreover have "pos st' = pos st + length (take k (rest st))" using k(4) t(2) by simp
  ultimately show ?case by blast
next
  case (Grp n r)
  from Grp.prems obtain st1 where s1: "st1 \<in> set (run ic r st)"
    and e: "st' = st1\<lparr>caps := (n, take (pos st1 - pos st) (rest st)) # caps st1\<rparr>" by auto
  from Grp.IH[OF s1] show ?case using e by auto
next
  case Bol
  then show ?case by (auto split: if_splits)
next
  case Eol
  then show ?case by (auto split: if_splits)
qed

lemma run_complete:
  "anchor_free r \<Longrightarrow> w \<in> lang ic r \<Longrightarrow> rest st = w @ s' \<Longrightarrow>
     \<exists>st' \<in> set (run ic r st). rest st' = s' \<and> pos st' = pos st + length w"
proof (induction r arbitrary: st w s')
  case Eps
  then show ?case by simp
next
  case (Atom a)
  then show ?case by auto
next
  case (Seq a b)
  from Seq.prems(2) obtain v x where vx: "w = v @ x" "v \<in> lang ic a" "x \<in> lang ic b" by auto
  have af: "anchor_free a" "anchor_free b" using Seq.prems(1) by simp_all
  have "rest st = v @ (x @ s')" using Seq.prems(3) vx(1) by simp
  from Seq.IH(1)[OF af(1) vx(2) this] obtain st1 where s1: "st1 \<in> set (run ic a st)"
    "rest st1 = x @ s'" "pos st1 = pos st + length v" by blast
  from Seq.IH(2)[OF af(2) vx(3) s1(2)] obtain st2 where s2: "st2 \<in> set (run ic b st1)"
    "rest st2 = s'" "pos st2 = pos st1 + length x" by blast
  have "st2 \<in> set (run ic (Seq a b) st)" using s1(1) s2(1) by auto
  moreover have "pos st2 = pos st + length w" using s1(3) s2(3) vx(1) by simp
  ultimately show ?case using s2(2) by blast
next
  case (Alt a b)
  then show ?case by (auto; blast)
next
  case (Opt a)
  then show ?case by (auto; blast)
next
  case (Plus a)
  from Plus.prems have w: "w \<noteq> []" "list_all (atom_ok ic a) w" by simp_all
  have "length w \<le> run_len ic a (rest st)"
    using run_len_prefix[OF w(2)] Plus.prems(3) by simp
  moreover have "1 \<le> length w" using w(1) by (cases w) auto
  ultimately have "advance (length w) st \<in> set (run ic (Plus a) st)"
    unfolding in_run_Plus by blast
  moreover have "rest (advance (length w) st) = s'" using Plus.prems(3) by simp
  ultimately show ?case by (metis pos_advance)
next
  case (Rep a lo hi)
  from Rep.prems have w: "lo \<le> length w" "length w \<le> hi" "list_all (atom_ok ic a) w"
    by simp_all
  have "length w \<le> run_len ic a (rest st)"
    using run_len_prefix[OF w(3)] Rep.prems(3) by simp
  hence "advance (length w) st \<in> set (run ic (Rep a lo hi) st)" using w(1,2)
    unfolding in_run_Rep by blast
  moreover have "rest (advance (length w) st) = s'" using Rep.prems(3) by simp
  ultimately show ?case by (metis pos_advance)
next
  case (Grp n r)
  from Grp.prems have "anchor_free r" "w \<in> lang ic r" by simp_all
  from Grp.IH[OF this Grp.prems(3)] obtain st1 where "st1 \<in> set (run ic r st)"
    "rest st1 = s'" "pos st1 = pos st + length w" by blast
  thus ?case by (auto intro!: bexI[where x=st1])
next
  case Bol
  then show ?case by simp
next
  case Eol
  then show ?case by simp
qed

lemma match_at_Some:
  assumes "match_at ic r i s = Some m"
  shows "\<exists>post. s = fst m @ post \<and> fst m \<in> lang ic r"
proof -
  from assms obtain st sts where run: "run ic r \<lparr>pos = i, rest = s, caps = []\<rparr> = st # sts"
    and m: "m = (take (pos st - i) s, caps st)"
    by (auto simp: match_at_def split: list.splits)
  from run have "st \<in> set (run ic r \<lparr>pos = i, rest = s, caps = []\<rparr>)" by simp
  from run_sound[OF this] obtain w where w: "w \<in> lang ic r" "s = w @ rest st"
    "pos st = i + length w" by auto
  have "take (pos st - i) s = w" using w(2,3) by (metis add_diff_cancel_left' append_eq_conv_conj)
  thus ?thesis using w m by auto
qed

lemma match_at_None:
  assumes "anchor_free r" and "match_at ic r i s = None" and "w \<in> lang ic r"
  shows "s \<noteq> w @ post"
proof
  assume "s = w @ post"
  hence "rest \<lparr>pos = i, rest = s, caps = []\<rparr> = w @ post" by simp
  from run_complete[OF assms(1,3) this] have "run ic r \<lparr>pos = i, rest = s, caps = []\<rparr> \<noteq> []"
    by auto
  with assms(2) show False by (auto simp: match_at_def split: list.splits)
qed

lemma leftmost_here:
  assumes "s = w @ post" and "w \<in> lang ic r"
  shows "leftmost ic r s w"
  unfolding leftmost_def using assms by (intro conjI exI[of _ "[]"] exI[of _ post]) auto

lemma leftmost_Cons:
  assumes lm: "leftmost ic r cs w"
    and no: "\<And>w' post'. w' \<in> lang ic r \<Longrightarrow> c # cs \<noteq> w' @ post'"
  shows "leftmost ic r (c # cs) w"
proof -
  from lm obtain pre post where w: "w \<in> lang ic r" and cs: "cs = pre @ w @ post"
    and least: "\<And>pre' w' post'. cs = pre' @ w' @ post' \<Longrightarrow> w' \<in> lang ic r \<Longrightarrow> length pre \<le> length pre'"
    unfolding leftmost_def by blast
  have "c # cs = (c # pre) @ w @ post" using cs by simp
  moreover have "length (c # pre) \<le> length pre'"
    if "c # cs = pre' @ w' @ post'" "w' \<in> lang ic r" for pre' w' post'
  proof (cases pre')
    case Nil
    with that no show ?thesis by auto
  next
    case (Cons x xs)
    with that(1) have "cs = xs @ w' @ post'" by simp
    from least[OF this that(2)] show ?thesis using Cons by simp
  qed
  ultimately show ?thesis unfolding leftmost_def using w by blast
qed

lemma search_from_Some:
  "anchor_free r \<Longrightarrow> search_from ic r i s = Some m \<Longrightarrow> leftmost ic r s (fst m)"
proof (induction s arbitrary: i)
  case Nil
  then have "match_at ic r i [] = Some m" by simp
  from match_at_Some[OF this] obtain post where "[] = fst m @ post" "fst m \<in> lang ic r" by blast
  thus ?case by (intro leftmost_here) auto
next
  case (Cons c cs)
  show ?case
  proof (cases "match_at ic r i (c # cs)")
    case (Some m')
    with Cons.prems(2) have "m' = m" by simp
    with match_at_Some[OF Some] obtain post where "c # cs = fst m @ post" "fst m \<in> lang ic r"
      by blast
    thus ?thesis by (rule leftmost_here)
  next
    case None
    with Cons.prems(2) have "search_from ic r (Suc i) cs = Some m" by simp
    from Cons.IH[OF Cons.prems(1) this] have "leftmost ic r cs (fst m)" .
    thus ?thesis using match_at_None[OF Cons.prems(1) None] by (rule leftmost_Cons)
  qed
qed

lemma search_from_None:
  "anchor_free r \<Longrightarrow> search_from ic r i s = None \<Longrightarrow> \<not> occurs ic r s"
proof (induction s arbitrary: i)
  case Nil
  then have "match_at ic r i [] = None" by simp
  from match_at_None[OF Nil.prems(1) this] show ?case by (auto simp: occurs_def)
next
  case (Cons c cs)
  from Cons.prems(2) have none: "match_at ic r i (c # cs) = None"
    and rec: "search_from ic r (Suc i) cs = None" by (auto split: option.splits)
  from Cons.IH[OF Cons.prems(1) rec] have ncs: "\<not> occurs ic r cs" .
  show ?case
  proof
    assume "occurs ic r (c # cs)"
    then obtain pre w post where e: "c # cs = pre @ w @ post" and w: "w \<in> lang ic r"
      by (auto simp: occurs_def)
    show False
    proof (cases pre)
      case Nil
      with e match_at_None[OF Cons.prems(1) none w] show False by auto
    next
      case (Cons x xs)
      with e have "cs = xs @ w @ post" by simp
      with w ncs show False by (auto simp: occurs_def)
    qed
  qed
qed

lemma leftmost_occurs: "leftmost ic r t w \<Longrightarrow> occurs ic r t"
  by (auto simp: leftmost_def occurs_def)

lemma re_search_Some:
  "anchor_free r \<Longrightarrow> re_search ic r t = Some m \<Longrightarrow> leftmost ic r t (match_group m 0)"
  by (simp add: re_search_def match_group_def search_from_Some)

lemma re_search_None_iff:
  "anchor_free r \<Longrightarrow> re_search ic r t = None \<longleftrightarrow> \<not> occurs ic r t"
  using search_from_None[of r ic 0 t] search_from_Some[of r ic 0 t]
  by (cases "re_search ic r t") (auto simp: re_search_def dest: leftmost_occurs)

lemma lang_chars: "lang ic (chars s) = {w. list_all2 (lit_ok ic) s w}"
proof (induction s)
  case Nil
  then show ?case by (simp add: chars_def)
next
  case (Cons p ps)
  have "chars (p # ps) = Seq (Atom (Lit p)) (chars ps)" by (simp add: chars_def)
  then show ?case using Cons
    apply (auto simp: list_all2_Cons1)
    subgoal for z zs by (rule exI[of _ "[z]"]) simp
    done
qed

lemma lang_seqs_Nil: "lang ic (seqs []) = {[]}"
  and lang_seqs_Cons: "lang ic (seqs (r # rs)) = {v @ w | v w. v \<in> lang ic r \<and> w \<in> lang ic (seqs rs)}"
  by (simp_all add: seqs_def)

lemma lang_alts_Cons: "rs \<noteq> [] \<Longrightarrow> lang ic (alts (r # rs)) = lang ic r \<union> lang ic (alts rs)"
  by (cases rs) simp_all

lemma anchor_free_chars: "anchor_free (chars s)"
  by (induction s) (simp_all add: chars_def)

lemma anchor_free_lit: "anchor_free (lit s)"
  by (simp add: lit_def anchor_free_chars)

lemma anchor_free_pats:
  "anchor_free pat_2160" "anchor_free pat_1080" "anchor_free pat_720" "anchor_free size_pattern"
  by (simp_all add: pat_2160_def pat_1080_def pat_720_def size_pattern_def seqs_def anchor_free_lit)

text \<open>Equations for running the matcher on a given text.\<close>

lemma isdecimal_low: "c < 1632 \<Longrightarrow> isdecimal c \<longleftrightarrow> 48 \<le> c \<and> c \<le> 57"
  by (auto simp: isdecimal_def digit_val_def digit_zeros_def)

lemmas rx_eval = re_search_def re_match_def match_at_def match_group_def lit_def chars_def seqs_def u_def
  advance_def run_len_def isdecimal_low isspace_def lit_ok_def case_variants_def ascii_lower_def
  ascii_upper_def

lemma occurs_iff_search: "anchor_free r \<Longrightarrow> occurs ic r t \<longleftrightarrow> re_search ic r t \<noteq> None"
  by (simp add: re_search_None_iff)

lemmas occurs_2160 = occurs_iff_search[OF anchor_free_pats(1), of True]
lemmas occurs_1080 = occurs_iff_search[OF anchor_free_pats(2), of True]
lemmas occurs_720 = occurs_iff_search[OF anchor_free_pats(3), of True]

lemma u_eq_iff [simp]: "u a = u b \<longleftrightarrow> a = b"
proof -
  have "inj (of_char :: char \<Rightarrow> nat)" by (rule injI) simp
  thus ?thesis by (simp add: u_def inj_map_eq_map)
qed

lemma u_Nil [simp]: "u [] = []" "u (c # cs) \<noteq> []" "[] \<noteq> u (c # cs)"
  by (simp_all add: u_def)

section \<open>The quality tag\<close>

lemma first_found_q:
  "first_found q_patterns t =
     (case re_search True pat_2160 t of Some m \<Rightarrow> Some (match_group m 0)
      | None \<Rightarrow> (case re_search True pat_1080 t of Some m \<Rightarrow> Some (match_group m 0)
      | None \<Rightarrow> (case re_search True pat_720 t of Some m \<Rightarrow> Some (match_group m 0) | None \<Rightarrow> None)))"
  by (simp add: q_patterns_def split: option.splits)

lemma word_2160: "u ''2160p'' \<in> lang True pat_2160"
  by (simp add: pat_2160_def lit_def lang_chars u_def lit_ok_def case_variants_def
      ascii_lower_def ascii_upper_def)

text \<open>
  Claim C8. \<open>guess_quality\<close> tries its three patterns in the order of the list: if a
  word of the first pattern (2160p, 4K, UHD) occurs anywhere in the text, the result is
  the leftmost such word; otherwise, if a word of the second pattern (1080p and the
  encode markers) occurs, the leftmost of those; otherwise, if 720p occurs, that
  occurrence; otherwise \<open>unknown\<close>. So a text in which 1080p comes first and 2160p later
  gives a word of the first pattern.
\<close>

theorem guess_quality_priority:
  "(occurs True pat_2160 t \<longrightarrow> leftmost True pat_2160 t (guess_quality t)) \<and>
   (\<not> occurs True pat_2160 t \<and> occurs True pat_1080 t \<longrightarrow>
      leftmost True pat_1080 t (guess_quality t)) \<and>
   (\<not> occurs True pat_2160 t \<and> \<not> occurs True pat_1080 t \<and> occurs True pat_720 t \<longrightarrow>
      leftmost True pat_720 t (guess_quality t)) \<and>
   (\<not> occurs True pat_2160 t \<and> \<not> occurs True pat_1080 t \<and> \<not> occurs True pat_720 t \<longrightarrow>
      guess_quality t = u ''unknown'') \<and>
   (\<forall>a b c. t = a @ u ''1080p'' @ b @ u ''2160p'' @ c \<longrightarrow> guess_quality t \<in> lang True pat_2160)"
proof -
  have A: "leftmost True pat_2160 t (guess_quality t)" if "occurs True pat_2160 t"
  proof -
    from that obtain m where m: "re_search True pat_2160 t = Some m"
      using re_search_None_iff[OF anchor_free_pats(1), of True t] by (cases "re_search True pat_2160 t") auto
    hence "guess_quality t = match_group m 0" by (simp add: guess_quality_def first_found_q)
    thus ?thesis using re_search_Some[OF anchor_free_pats(1) m] by simp
  qed
  have B: "leftmost True pat_1080 t (guess_quality t)"
    if "\<not> occurs True pat_2160 t" "occurs True pat_1080 t"
  proof -
    from that(1) have n: "re_search True pat_2160 t = None"
      by (simp add: re_search_None_iff[OF anchor_free_pats(1)])
    from that(2) obtain m where m: "re_search True pat_1080 t = Some m"
      using re_search_None_iff[OF anchor_free_pats(2), of True t] by (cases "re_search True pat_1080 t") auto
    hence "guess_quality t = match_group m 0" using n by (simp add: guess_quality_def first_found_q)
    thus ?thesis using re_search_Some[OF anchor_free_pats(2) m] by simp
  qed
  have C: "leftmost True pat_720 t (guess_quality t)"
    if "\<not> occurs True pat_2160 t" "\<not> occurs True pat_1080 t" "occurs True pat_720 t"
  proof -
    from that(1) have n1: "re_search True pat_2160 t = None"
      by (simp add: re_search_None_iff[OF anchor_free_pats(1)])
    from that(2) have n2: "re_search True pat_1080 t = None"
      by (simp add: re_search_None_iff[OF anchor_free_pats(2)])
    from that(3) obtain m where m: "re_search True pat_720 t = Some m"
      using re_search_None_iff[OF anchor_free_pats(3), of True t] by (cases "re_search True pat_720 t") auto
    hence "guess_quality t = match_group m 0" using n1 n2 by (simp add: guess_quality_def first_found_q)
    thus ?thesis using re_search_Some[OF anchor_free_pats(3) m] by simp
  qed
  have D: "guess_quality t = u ''unknown''"
    if "\<not> occurs True pat_2160 t" "\<not> occurs True pat_1080 t" "\<not> occurs True pat_720 t"
  proof -
    from that have "re_search True pat_2160 t = None" "re_search True pat_1080 t = None"
      "re_search True pat_720 t = None"
      by (simp_all add: re_search_None_iff[OF anchor_free_pats(1)]
          re_search_None_iff[OF anchor_free_pats(2)] re_search_None_iff[OF anchor_free_pats(3)])
    thus ?thesis by (simp add: guess_quality_def first_found_q)
  qed
  have E: "guess_quality t \<in> lang True pat_2160" if "t = a @ u ''1080p'' @ b @ u ''2160p'' @ c" for a b c
  proof -
    have "t = (a @ u ''1080p'' @ b) @ u ''2160p'' @ c" using that by simp
    hence "occurs True pat_2160 t" using word_2160 unfolding occurs_def by blast
    from A[OF this] show ?thesis by (simp add: leftmost_def)
  qed
  from A B C D E show ?thesis by blast
qed

lemma sample_a:
  "re_search True pat_2160 (u ''A 1080p BDRip 2160p'') \<noteq> None"
  "guess_quality (u ''A 1080p BDRip 2160p'') = u ''2160p''"
  by (simp_all add: guess_quality_def first_found_q pat_2160_def rx_eval)

lemma sample_b:
  "re_search True pat_2160 (u ''B WEB-DL 720p'') = None"
  "re_search True pat_1080 (u ''B WEB-DL 720p'') \<noteq> None"
  "guess_quality (u ''B WEB-DL 720p'') = u ''WEB-DL''"
  by (simp_all add: guess_quality_def first_found_q pat_2160_def pat_1080_def rx_eval)

lemma sample_c:
  "re_search True pat_2160 (u ''C 720P'') = None"
  "re_search True pat_1080 (u ''C 720P'') = None"
  "re_search True pat_720 (u ''C 720P'') \<noteq> None"
  "guess_quality (u ''C 720P'') = u ''720P''"
  by (simp_all add: guess_quality_def first_found_q pat_2160_def pat_1080_def pat_720_def rx_eval)

lemma sample_d:
  "re_search True pat_2160 (u ''D'') = None"
  "re_search True pat_1080 (u ''D'') = None"
  "re_search True pat_720 (u ''D'') = None"
  by (simp_all add: pat_2160_def pat_1080_def pat_720_def rx_eval)

theorem guess_quality_priority_witness:
  "(occurs True pat_2160 (u ''A 1080p BDRip 2160p'') \<and>
      leftmost True pat_2160 (u ''A 1080p BDRip 2160p'') (guess_quality (u ''A 1080p BDRip 2160p'')) \<and>
      guess_quality (u ''A 1080p BDRip 2160p'') = u ''2160p'') \<and>
   (\<not> occurs True pat_2160 (u ''B WEB-DL 720p'') \<and> occurs True pat_1080 (u ''B WEB-DL 720p'') \<and>
      leftmost True pat_1080 (u ''B WEB-DL 720p'') (guess_quality (u ''B WEB-DL 720p'')) \<and>
      guess_quality (u ''B WEB-DL 720p'') = u ''WEB-DL'') \<and>
   (\<not> occurs True pat_2160 (u ''C 720P'') \<and> \<not> occurs True pat_1080 (u ''C 720P'') \<and>
      occurs True pat_720 (u ''C 720P'') \<and>
      leftmost True pat_720 (u ''C 720P'') (guess_quality (u ''C 720P'')) \<and>
      guess_quality (u ''C 720P'') = u ''720P'') \<and>
   (\<not> occurs True pat_2160 (u ''D'') \<and> \<not> occurs True pat_1080 (u ''D'') \<and>
      \<not> occurs True pat_720 (u ''D'') \<and> guess_quality (u ''D'') = u ''unknown'')"
proof -
  have a: "occurs True pat_2160 (u ''A 1080p BDRip 2160p'')"
    using sample_a(1) by (simp add: occurs_2160)
  have b: "\<not> occurs True pat_2160 (u ''B WEB-DL 720p'')" "occurs True pat_1080 (u ''B WEB-DL 720p'')"
    using sample_b(1,2) by (simp_all add: occurs_2160 occurs_1080)
  have c: "\<not> occurs True pat_2160 (u ''C 720P'')" "\<not> occurs True pat_1080 (u ''C 720P'')"
    "occurs True pat_720 (u ''C 720P'')"
    using sample_c(1,2,3) by (simp_all add: occurs_2160 occurs_1080 occurs_720)
  have d: "\<not> occurs True pat_2160 (u ''D'')" "\<not> occurs True pat_1080 (u ''D'')"
    "\<not> occurs True pat_720 (u ''D'')"
    using sample_d by (simp_all add: occurs_2160 occurs_1080 occurs_720)
  from guess_quality_priority[of "u ''A 1080p BDRip 2160p''"] a
  have A: "leftmost True pat_2160 (u ''A 1080p BDRip 2160p'') (guess_quality (u ''A 1080p BDRip 2160p''))"
    by blast
  from guess_quality_priority[of "u ''B WEB-DL 720p''"] b
  have B: "leftmost True pat_1080 (u ''B WEB-DL 720p'') (guess_quality (u ''B WEB-DL 720p''))"
    by blast
  from guess_quality_priority[of "u ''C 720P''"] c
  have C: "leftmost True pat_720 (u ''C 720P'') (guess_quality (u ''C 720P''))"
    by blast
  from guess_quality_priority[of "u ''D''"] d
  have D: "guess_quality (u ''D'') = u ''unknown''"
    by blast
  show ?thesis
    by (intro conjI a b c d A B C D sample_a(2) sample_b(3) sample_c(4))
qed

section \<open>The size text\<close>

lemma size_word:
  assumes "w \<in> lang True size_pattern"
  shows "w \<noteq> [] \<and> isdecimal (hd w)"
proof -
  obtain r1 r2 where sp: "size_pattern = Seq (Grp 1 (Seq (Plus Digit) r1)) r2"
    by (simp add: size_pattern_def seqs_def)
  from assms obtain v y where "w = v @ y" "v \<in> lang True (Seq (Plus Digit) r1)"
    unfolding sp by auto
  moreover then obtain d x where "v = d @ x" "d \<in> lang True (Plus Digit)" by auto
  ultimately have "w = d @ (x @ y)" "d \<noteq> []" "list_all isdecimal d"
    by (simp_all add: list_all_iff)
  thus ?thesis by (cases d) auto
qed



lemma not_occurs_Nil: "\<not> occurs True size_pattern []"
  using size_word by (auto simp: occurs_def)

lemma guess_size_empty: "guess_size [] = unknown_size"
  using not_occurs_Nil re_search_None_iff[OF anchor_free_pats(4), of True "[]"]
  by (simp add: guess_size_def)

lemma guess_size_no_token:
  "t \<noteq> [] \<Longrightarrow> \<not> occurs True size_pattern t \<Longrightarrow> guess_size t = t"
  using re_search_None_iff[OF anchor_free_pats(4), of True t] by (simp add: guess_size_def)



lemma guess_size_nonempty: "guess_size t \<noteq> []"
proof (cases "re_search True size_pattern t")
  case None
  then show ?thesis by (simp add: guess_size_def unknown_size_def)
next
  case (Some m)
  from re_search_Some[OF anchor_free_pats(4) Some] size_word
  show ?thesis by (auto simp: guess_size_def Some leftmost_def)
qed

lemma chars_word_length: "w \<in> lang ic (chars s) \<Longrightarrow> length w = length s"
  by (simp add: lang_chars list_all2_lengthD)

lemma lit_word_nonempty: "w \<in> lang ic (lit (c # cs)) \<Longrightarrow> w \<noteq> []"
  by (auto simp: lit_def u_def dest: chars_word_length)

lemma quality_word_nonempty:
  "w \<in> lang True pat_2160 \<or> w \<in> lang True pat_1080 \<or> w \<in> lang True pat_720 \<Longrightarrow> w \<noteq> []"
  by (auto simp: pat_2160_def pat_1080_def pat_720_def lang_seqs_Cons dest: lit_word_nonempty)

lemma guess_quality_nonempty: "guess_quality t \<noteq> []"
proof -
  consider "occurs True pat_2160 t" | "\<not> occurs True pat_2160 t" "occurs True pat_1080 t"
    | "\<not> occurs True pat_2160 t" "\<not> occurs True pat_1080 t" "occurs True pat_720 t"
    | "\<not> occurs True pat_2160 t" "\<not> occurs True pat_1080 t" "\<not> occurs True pat_720 t"
    by blast
  then show ?thesis
  proof cases
    case 4
    hence "re_search True pat_2160 t = None" "re_search True pat_1080 t = None"
      "re_search True pat_720 t = None"
      by (simp_all add: re_search_None_iff[OF anchor_free_pats(1)]
          re_search_None_iff[OF anchor_free_pats(2)] re_search_None_iff[OF anchor_free_pats(3)])
    thus ?thesis by (simp add: guess_quality_def first_found_q u_def)
  next
    case 1
    then obtain m where m: "re_search True pat_2160 t = Some m"
      using re_search_None_iff[OF anchor_free_pats(1), of True t] by (cases "re_search True pat_2160 t") auto
    from re_search_Some[OF anchor_free_pats(1) m] quality_word_nonempty[of "match_group m 0"]
    show ?thesis by (simp add: guess_quality_def first_found_q m leftmost_def)
  next
    case 2
    hence n: "re_search True pat_2160 t = None"
      by (simp add: re_search_None_iff[OF anchor_free_pats(1)])
    from 2 obtain m where m: "re_search True pat_1080 t = Some m"
      using re_search_None_iff[OF anchor_free_pats(2), of True t] by (cases "re_search True pat_1080 t") auto
    from re_search_Some[OF anchor_free_pats(2) m] quality_word_nonempty[of "match_group m 0"]
    show ?thesis by (simp add: guess_quality_def first_found_q m n leftmost_def)
  next
    case 3
    hence n: "re_search True pat_2160 t = None" "re_search True pat_1080 t = None"
      by (simp_all add: re_search_None_iff[OF anchor_free_pats(1)] re_search_None_iff[OF anchor_free_pats(2)])
    from 3 obtain m where m: "re_search True pat_720 t = Some m"
      using re_search_None_iff[OF anchor_free_pats(3), of True t] by (cases "re_search True pat_720 t") auto
    from re_search_Some[OF anchor_free_pats(3) m] quality_word_nonempty[of "match_group m 0"]
    show ?thesis by (simp add: guess_quality_def first_found_q m n leftmost_def)
  qed
qed

lemma guess_quality_no_tag:
  assumes "\<not> occurs True pat_2160 t" "\<not> occurs True pat_1080 t" "\<not> occurs True pat_720 t"
  shows "guess_quality t = u ''unknown''"
proof -
  from assms have "re_search True pat_2160 t = None" "re_search True pat_1080 t = None"
    "re_search True pat_720 t = None"
    by (simp_all add: re_search_None_iff[OF anchor_free_pats(1)]
        re_search_None_iff[OF anchor_free_pats(2)] re_search_None_iff[OF anchor_free_pats(3)])
  thus ?thesis by (simp add: guess_quality_def first_found_q)
qed

lemma sample_sizes:
  "re_search True size_pattern (u ''Anime'') = None"
  "re_search True size_pattern (u ''ab 567.6 mib'') \<noteq> None"
  "guess_size (u ''ab 567.6 mib'') = u ''567.6 mib''"
  "re_search True size_pattern (u ''n/a'') = None"
  "guess_size (u ''n/a'') = u ''n/a''"
  by (simp_all add: guess_size_def size_pattern_def rx_eval)

section \<open>Resolving a detail page\<close>

lemma magnet_nonempty: "is_magnet h \<Longrightarrow> h \<noteq> []"
  by (auto simp: is_magnet_def startswith_def magnet_prefix_def u_def)

lemma download_nonempty: "str_lower lib [] = [] \<Longrightarrow> is_download lib h \<Longrightarrow> h \<noteq> []"
  by (auto simp: is_download_def endswith_def u_def)

lemma extract_magnet_cases:
  "extract_magnet_from_detail lib html =
     (case List.find is_magnet (page_hrefs lib html) of
        Some h \<Rightarrow> h
      | None \<Rightarrow> (case List.find (is_download lib) (page_hrefs lib html) of
                   Some h \<Rightarrow> h | None \<Rightarrow> []))"
proof -
  have "(\<lambda>href. startswith href magnet_prefix) = is_magnet" by (simp add: is_magnet_def fun_eq_iff)
  thus ?thesis
    by (simp add: extract_magnet_from_detail_def page_hrefs_def Let_def cong: option.case_cong)
qed

text \<open>
  Claim C7. \<open>_fetch_detail_link\<close> never raises. When the GET fails, or the status is not
  200, it returns the detail URL. On status 200 it returns the first hyperlink target of
  the page, in document order, that starts with the magnet prefix; if there is none, the
  first one that ends in \<open>.torrent\<close> or contains \<open>download\<close> once lowered; if there is none
  either, the detail URL. The hyperlink targets are the \<open>href\<close> values with the white
  space around them stripped. \<open>str.lower\<close> is assumed to map the empty string to itself.
\<close>

theorem fetch_detail_link_never_raises:
  assumes "str_lower lib [] = []"
  shows "\<exists>link. fetch_detail_link lib w c detail_url = Inr link \<and>
     (case client_get w c detail_url of
        Inl e \<Rightarrow> link = detail_url
      | Inr r \<Rightarrow>
          if status_code r \<noteq> 200 then link = detail_url
          else if \<exists>h \<in> set (page_hrefs lib (resp_text r)). is_magnet h then
            \<exists>i < length (page_hrefs lib (resp_text r)).
               link = page_hrefs lib (resp_text r) ! i \<and> is_magnet (page_hrefs lib (resp_text r) ! i) \<and>
               (\<forall>j < i. \<not> is_magnet (page_hrefs lib (resp_text r) ! j))
          else if \<exists>h \<in> set (page_hrefs lib (resp_text r)). is_download lib h then
            \<exists>i < length (page_hrefs lib (resp_text r)).
               link = page_hrefs lib (resp_text r) ! i \<and>
               is_download lib (page_hrefs lib (resp_text r) ! i) \<and>
               (\<forall>j < i. \<not> is_download lib (page_hrefs lib (resp_text r) ! j))
          else link = detail_url)"
proof (cases "client_get w c detail_url")
  case (Inl e)
  then show ?thesis by (simp add: fetch_detail_link_def fetch_detail_try_def)
next
  case (Inr r)
  let ?hs = "page_hrefs lib (resp_text r)"
  show ?thesis
  proof (cases "status_code r = 200")
    case False
    with Inr show ?thesis by (simp add: fetch_detail_link_def fetch_detail_try_def)
  next
    case ok: True
    show ?thesis
    proof (cases "List.find is_magnet ?hs")
      case (Some h)
      then obtain i where i: "i < length ?hs" "is_magnet (?hs ! i)" "h = ?hs ! i"
        "\<forall>j<i. \<not> is_magnet (?hs ! j)" unfolding find_Some_iff by blast
      hence ex: "\<exists>h \<in> set ?hs. is_magnet h" by (metis nth_mem)
      have "h \<noteq> []" using i(2,3) magnet_nonempty by simp
      hence "fetch_detail_link lib w c detail_url = Inr h"
        using Inr ok Some by (simp add: fetch_detail_link_def fetch_detail_try_def extract_magnet_cases)
      thus ?thesis using Inr ok ex i by auto
    next
      case None
      hence nomag: "\<not> (\<exists>h \<in> set ?hs. is_magnet h)" unfolding find_None_iff by blast
      show ?thesis
      proof (cases "List.find (is_download lib) ?hs")
        case (Some h)
        then obtain i where i: "i < length ?hs" "is_download lib (?hs ! i)" "h = ?hs ! i"
          "\<forall>j<i. \<not> is_download lib (?hs ! j)" unfolding find_Some_iff by blast
        hence ex: "\<exists>h \<in> set ?hs. is_download lib h" by (metis nth_mem)
        have "h \<noteq> []" using i(2,3) download_nonempty[OF assms] by simp
        hence "fetch_detail_link lib w c detail_url = Inr h"
          using Inr ok None Some
          by (simp add: fetch_detail_link_def fetch_detail_try_def extract_magnet_cases)
        thus ?thesis using Inr ok ex nomag i by auto
      next
        case None2: None
        hence nodl: "\<not> (\<exists>h \<in> set ?hs. is_download lib h)" unfolding find_None_iff by blast
        have "fetch_detail_link lib w c detail_url = Inr detail_url"
          using Inr ok None None2
          by (simp add: fetch_detail_link_def fetch_detail_try_def extract_magnet_cases)
        thus ?thesis using Inr ok nomag nodl by auto
      qed
    qed
  qed
qed

section \<open>Parsing the time cell\<close>

lemma digit_val_low: "c < 1632 \<Longrightarrow> digit_val c = (if 48 \<le> c \<and> c \<le> 57 then Some (c - 48) else None)"
  by (auto simp: digit_val_def digit_zeros_def)

lemma not_decimal_cjk: "19968 \<le> c \<Longrightarrow> c < 40960 \<Longrightarrow> \<not> isdecimal c"
  by (auto simp: isdecimal_def digit_val_def digit_zeros_def)

lemmas time_eval = parse_cn_time_def rel_time_pattern_def abs_time_pattern_def today_word_def
  yesterday_word_def today_2141_def today_2500_def strip_def rx_eval not_decimal_cjk py_int_def
  digit_val_low mk_datetime_def days_in_month_def is_leap_def date_of_def day_before_def
  sample_now_def

lemma parse_today_2141:
  "parse_cn_time clk today_2141 (Some sample_now) =
     Inr \<lparr>year = 2025, month = 10, day = 26, hour = 21, minute = 41, second = 0,
          microsecond = 0, tzinfo = Some TZ\<rparr>"
  by (simp add: time_eval)

lemma parse_today_2500: "parse_cn_time clk today_2500 (Some sample_now) = Inl ValueError"
  by (simp add: time_eval)

lemma parse_yesterday:
  "parse_cn_time clk (yesterday_word @ u '' 08:12'') (Some sample_now) =
     Inr \<lparr>year = 2025, month = 10, day = 25, hour = 8, minute = 12, second = 0,
          microsecond = 0, tzinfo = Some TZ\<rparr>"
  by (simp add: time_eval)

lemma parse_absolute:
  "parse_cn_time clk (u ''2025-10-26 21:41'') (Some now) =
     Inr \<lparr>year = 2025, month = 10, day = 26, hour = 21, minute = 41, second = 0,
          microsecond = 0, tzinfo = Some TZ\<rparr>"
  by (simp add: time_eval)

lemma parse_other: "parse_cn_time clk (u ''not a date'') (Some now) = Inr now"
  by (simp add: time_eval)

lemma parse_bad_date: "parse_cn_time clk (u ''2025-02-30 10:00'') (Some now) = Inl ValueError"
  by (simp add: time_eval)

text \<open>
  Claim C6 fails on the code. A time cell that has the shape of a time but not the
  range of one, such as "today 25:00" or a 30th of February, passes the pattern and
  reaches the \<open>datetime\<close> constructor, which raises \<open>ValueError\<close>: the result is neither
  that day with the given time nor \<open>now\<close>.
\<close>

theorem parse_cn_time_raises_out_of_range:
  "parse_cn_time clk today_2500 (Some sample_now) = Inl ValueError \<and>
   parse_cn_time clk (u ''2025-02-30 10:00'') (Some sample_now) = Inl ValueError"
  by (simp add: parse_today_2500 parse_bad_date)

section \<open>The sample pages, evaluated\<close>

lemma clean_text_samples:
  "clean_text today_2141 = today_2141"
  "clean_text today_2500 = today_2500"
  "clean_text sample_title = sample_title"
  "clean_text sample_size = sample_size"
  "clean_text (u ''  '') = []"
  "clean_text (u ''n/a'') = u ''n/a''"
  by (simp_all add: clean_text_def strip_def isspace_def today_2141_def today_2500_def
      today_word_def sample_title_def sample_size_def u_def)

lemma strip_samples:
  "strip (u ''show-1.html'') = u ''show-1.html''"
  "strip (u ''show-2.html'') = u ''show-2.html''"
  "strip (u ''show-3.html'') = u ''show-3.html''"
  "strip (u ''show-4.html'') = u ''show-4.html''"
  "strip (u ''show-5.html'') = u ''show-5.html''"
  "strip (u ''show-6.html'') = u ''show-6.html''"
  "strip (u ''/about.html'') = u ''/about.html''"
  "strip (u '' magnet:?xt=urn:btih:abc '') = sample_magnet"
  "strip (u ''/file.torrent'') = u ''/file.torrent''"
  by (simp_all add: strip_def isspace_def sample_magnet_def u_def)

lemma guess_samples:
  "guess_size sample_size = sample_size"
  "guess_quality sample_title = u ''1080p''"
  "guess_quality [] = u ''unknown''"
  by (simp_all add: guess_size_def guess_quality_def first_found_q size_pattern_def pat_2160_def
      pat_1080_def pat_720_def sample_size_def sample_title_def rx_eval)

lemma isoformat_sample:
  "isoformat_taipei \<lparr>year = 2025, month = 10, day = 26, hour = 21, minute = 41, second = 0,
          microsecond = 0, tzinfo = Some TZ\<rparr> = u ''2025-10-26T21:41:00+08:00''"
  by (simp add: isoformat_taipei_def two_digits_def u_def)

lemma magnet_samples:
  "\<not> is_magnet (u ''/about.html'')" "is_magnet sample_magnet" "\<not> is_magnet (u ''/file.torrent'')"
  by (simp_all add: is_magnet_def startswith_def magnet_prefix_def sample_magnet_def u_def)

lemma captcha_samples:
  "looks_like_captcha (sample_lib a b) blocked_page"
  "\<not> looks_like_captcha (sample_lib a b) good_page"
  by (simp_all add: looks_like_captcha_def sample_lib_def markers_def blocked_page_def good_page_def
      startswith_def ascii_lower_def u_def)

lemma lower_names:
  "map ascii_lower (u ''[document]'') = u ''[document]''"
  "map ascii_lower (u ''table'') = u ''table''"
  "map ascii_lower (u ''tbody'') = u ''tbody''"
  "map ascii_lower (u ''tr'') = u ''tr''"
  "map ascii_lower (u ''td'') = u ''td''"
  "map ascii_lower (u ''a'') = u ''a''"
  by (simp_all add: ascii_lower_def u_def)

lemmas dom_eval = attr_def has_attr_def find_all_direct_def is_a_href_def find_all_a_href_def
  find_a_href_def sel_matches_def select_one_def td_def sample_row_def sample_listing_def
  sample_detail_def lower_names

lemma sample_world_sel [simp]:
  "clock (sample_world p q) = sample_now"
  "env_cookie (sample_world p q) = []"
  "http_get (sample_world p q) hs target =
     (if target = COMICAT_TODAY_URL then Inr \<lparr>status_code = 200, resp_text = p\<rparr>
      else Inr \<lparr>status_code = 200, resp_text = q\<rparr>)"
  by (simp_all add: sample_world_def)

lemma sample_lib_sel [simp]:
  "html_parser (sample_lib a b) h = a"
  "lxml_parser (sample_lib a b) h = b"
  "str_lower (sample_lib a b) = map ascii_lower"
  "urljoin (sample_lib a b) BASE_URL (u n) = Inr (show_url n)"
  "isoformat (sample_lib a b) = isoformat_taipei"
  by (simp_all add: sample_lib_def show_url_def BASE_URL_def)

lemma open_client_sel [simp]: "is_closed open_client = False" "headers open_client = base_headers"
  by (simp_all add: open_client_def)

lemma detail_hrefs:
  "page_hrefs (sample_lib a detail_dom) h = [u ''/about.html'', sample_magnet, u ''/file.torrent'']"
  by (simp add: page_hrefs_def detail_dom_def dom_eval strip_samples)

lemma show_url_not_listing:
  "show_url ''show-1.html'' \<noteq> COMICAT_TODAY_URL" "show_url ''show-2.html'' \<noteq> COMICAT_TODAY_URL"
  "show_url ''show-3.html'' \<noteq> COMICAT_TODAY_URL" "show_url ''show-4.html'' \<noteq> COMICAT_TODAY_URL"
  by (simp_all add: show_url_def COMICAT_TODAY_URL_def u_def)

lemma fetch_sample:
  "target \<noteq> COMICAT_TODAY_URL \<Longrightarrow>
     fetch_detail_link (sample_lib a detail_dom) (sample_world p q) open_client target = Inr sample_magnet"
proof -
  have "sample_magnet \<noteq> []" by (simp add: sample_magnet_def)
  moreover assume "target \<noteq> COMICAT_TODAY_URL"
  ultimately show ?thesis
    by (simp add: fetch_detail_link_def fetch_detail_try_def client_get_def extract_magnet_cases
        detail_hrefs magnet_samples)
qed

lemma fetch_closed: "is_closed c \<Longrightarrow> fetch_detail_link lib w c target = Inr target"
  by (simp add: fetch_detail_link_def fetch_detail_try_def client_get_def)

lemma sample_row_cells:
  "find_all_direct (u ''td'') (sample_row tm h ttl sz) =
     [td [Text tm], td [Text (u ''Anime'')], td [Tag (u ''a'') [(u ''href'', h)] [Text ttl]],
      td [Text sz]]"
  by (simp add: find_all_direct_def sample_row_def td_def)

lemma sample_row_anchor:
  "find_a_href (td [Tag (u ''a'') [(u ''href'', h)] [Text ttl]]) =
     Some (Tag (u ''a'') [(u ''href'', h)] [Text ttl])"
  "get_text (td [Text s]) = s"
  "get_text (Tag (u ''a'') [(u ''href'', h)] [Text ttl]) = ttl"
  "attr (Tag (u ''a'') [(u ''href'', h)] [Text ttl]) (u ''href'') = h"
  "find_a_href (td [Text s]) = None"
  by (simp_all add: dom_eval)

lemma sample_listing_rows:
  "select_one (sample_listing rows) =
     Some (Tag (u ''tbody'') [(u ''id'', u ''data_list'')] rows)"
  "find_all_direct (u ''tr'') (Tag (u ''tbody'') [(u ''id'', u ''data_list'')] rows)
     = filter (is_tag (u ''tr'')) rows"
  by (simp_all add: dom_eval)

section \<open>The loop over the rows of the table\<close>

lemma row_gives_past_cap:
  "client_for_detail = None \<or> max_detail \<le> c \<Longrightarrow>
     row_gives lib w now client_for_detail max_detail (c + 1) tr r =
     row_gives lib w now client_for_detail max_detail c tr r"
  by (auto simp: row_gives_def split: option.splits)

lemma parse_rows_skip:
  assumes "\<not> retained tr"
    and "parse_rows lib w now cfd k (tr # trs) acc n = Inr rs"
  shows "parse_rows lib w now cfd k trs acc n = Inr rs"
  using assms
  by (auto simp: retained_def cells_def Let_def split: if_splits sum.splits option.splits)

lemma parse_rows_keep_step:
  assumes "retained tr"
    and "parse_rows lib w now cfd k (tr # trs) acc n = Inr rs"
  shows "\<exists>dt d link n'.
           parse_cn_time (clock w) (clean_text (get_text (cells tr ! 0))) (Some now) = Inr dt \<and>
           detail_url_of lib tr = Inr d \<and>
           (case cfd of
              Some cl \<Rightarrow> if n < k then fetch_detail_link lib w cl d = Inr link \<and> n' = n + 1
                         else link = d \<and> n' = n
            | None \<Rightarrow> link = d \<and> n' = n) \<and>
           parse_rows lib w now cfd k trs
             (acc @ [\<lparr>title = clean_text (get_text (row_anchor tr)), url = link,
                      size_str = guess_size (clean_text (get_text (cells tr ! 3))),
                      quality = guess_quality (clean_text (get_text (row_anchor tr))),
                      date = isoformat lib dt, source = u ''comicat.org''\<rparr>]) n' = Inr rs"
  using assms
  by (auto simp: retained_def cells_def row_anchor_def detail_url_of_def Let_def
      split: if_splits sum.splits option.splits)

lemma parse_rows_keep:
  assumes "retained tr"
    and "parse_rows lib w now cfd k (tr # trs) acc n = Inr rs"
  shows "\<exists>r n'. row_gives lib w now cfd k n tr r \<and>
           (n' = n + 1 \<or> (n' = n \<and> (cfd = None \<or> k \<le> n))) \<and>
           parse_rows lib w now cfd k trs (acc @ [r]) n' = Inr rs"
proof -
  from parse_rows_keep_step[OF assms] obtain dt d link n' where
    t: "parse_cn_time (clock w) (clean_text (get_text (cells tr ! 0))) (Some now) = Inr dt"
    and d: "detail_url_of lib tr = Inr d"
    and c: "case cfd of
              Some cl \<Rightarrow> if n < k then fetch_detail_link lib w cl d = Inr link \<and> n' = n + 1
                         else link = d \<and> n' = n
            | None \<Rightarrow> link = d \<and> n' = n"
    and p: "parse_rows lib w now cfd k trs
             (acc @ [\<lparr>title = clean_text (get_text (row_anchor tr)), url = link,
                      size_str = guess_size (clean_text (get_text (cells tr ! 3))),
                      quality = guess_quality (clean_text (get_text (row_anchor tr))),
                      date = isoformat lib dt, source = u ''comicat.org''\<rparr>]) n' = Inr rs"
    by blast
  let ?r = "\<lparr>title = clean_text (get_text (row_anchor tr)), url = link,
             size_str = guess_size (clean_text (get_text (cells tr ! 3))),
             quality = guess_quality (clean_text (get_text (row_anchor tr))),
             date = isoformat lib dt, source = u ''comicat.org''\<rparr>"
  have "row_gives lib w now cfd k n tr ?r"
    using t d c by (auto simp: row_gives_def split: option.splits if_splits)
  moreover have "n' = n + 1 \<or> (n' = n \<and> (cfd = None \<or> k \<le> n))"
    using c by (auto split: option.splits if_splits)
  ultimately show ?thesis using p by blast
qed

lemma parse_rows_Inr:
  "parse_rows lib w now cfd k rows acc n = Inr rs \<Longrightarrow>
     \<exists>new. rs = acc @ new \<and> length new = length (filter retained rows) \<and>
       (\<forall>i < length new. row_gives lib w now cfd k (n + int i) (filter retained rows ! i) (new ! i))"
proof (induction rows arbitrary: acc n)
  case Nil
  then show ?case by simp
next
  case (Cons tr trs)
  show ?case
  proof (cases "retained tr")
    case False
    from Cons.IH[OF parse_rows_skip[OF False Cons.prems]] False show ?thesis by simp
  next
    case True
    from parse_rows_keep[OF True Cons.prems] obtain r n' where
      r: "row_gives lib w now cfd k n tr r"
      and n': "n' = n + 1 \<or> (n' = n \<and> (cfd = None \<or> k \<le> n))"
      and p: "parse_rows lib w now cfd k trs (acc @ [r]) n' = Inr rs" by blast
    from Cons.IH[OF p] obtain new where new: "rs = (acc @ [r]) @ new"
      "length new = length (filter retained trs)"
      "\<forall>i < length new. row_gives lib w now cfd k (n' + int i) (filter retained trs ! i) (new ! i)"
      by blast
    have shift: "row_gives lib w now cfd k (n + int (Suc i)) tr' r'"
      if "row_gives lib w now cfd k (n' + int i) tr' r'" for i tr' r'
    proof (cases "n' = n + 1")
      case True
      hence "n + int (Suc i) = n' + int i" by simp
      with that show ?thesis by (simp only:)
    next
      case False
      with n' have e: "n' = n" and past: "cfd = None \<or> k \<le> n + int i" by auto
      have "row_gives lib w now cfd k (n + int i + 1) tr' r'"
        using that e row_gives_past_cap[OF past] by simp
      moreover have "n + int (Suc i) = n + int i + 1" by simp
      ultimately show ?thesis by (simp only:)
    qed
    have "\<forall>i < length (r # new).
            row_gives lib w now cfd k (n + int i) (filter retained (tr # trs) ! i) ((r # new) ! i)"
    proof (intro allI impI)
      fix i assume "i < length (r # new)"
      show "row_gives lib w now cfd k (n + int i) (filter retained (tr # trs) ! i) ((r # new) ! i)"
      proof (cases i)
        case 0
        with r True show ?thesis by simp
      next
        case (Suc j)
        with \<open>i < length (r # new)\<close> have "j < length new" by simp
        with new(3) have "row_gives lib w now cfd k (n' + int j) (filter retained trs ! j) (new ! j)"
          by blast
        from shift[OF this] Suc True show ?thesis by simp
      qed
    qed
    moreover have "rs = acc @ (r # new)" using new(1) by simp
    moreover have "length (r # new) = length (filter retained (tr # trs))"
      using new(2) True by simp
    ultimately show ?thesis by blast
  qed
qed

lemma parse_today_table_Inr:
  assumes "parse_today_table lib w html cfd k = Inr rs"
  shows "length rs = length (filter retained (table_rows lib html)) \<and>
     (\<forall>i < length rs.
        row_gives lib w (clock w) cfd k (int i) (filter retained (table_rows lib html) ! i) (rs ! i))"
proof (cases "select_one (html_parser lib html)")
  case None
  with assms show ?thesis by (simp add: parse_today_table_def table_rows_def)
next
  case (Some table)
  with assms have "parse_rows lib w (clock w) cfd k (find_all_direct (u ''tr'') table) [] 0 = Inr rs"
    by (simp add: parse_today_table_def)
  from parse_rows_Inr[OF this] Some show ?thesis by (simp add: table_rows_def)
qed

lemma parse_today_table_no_table:
  "select_one (html_parser lib html) = None \<Longrightarrow> parse_today_table lib w html cfd k = Inr []"
  by (simp add: parse_today_table_def)

section \<open>The table parser on the sample pages\<close>

lemma parse_rows_sample_row:
  "parse_rows L W now cfd k (sample_row tm h ttl sz # trs) acc n =
    (case parse_cn_time (clock W) (clean_text tm) (Some now) of
       Inl e \<Rightarrow> Inl e
     | Inr dt \<Rightarrow>
      (case urljoin L BASE_URL (strip h) of
         Inl e \<Rightarrow> Inl e
       | Inr d \<Rightarrow>
        (case (case cfd of
                 Some c \<Rightarrow> if n < k then
                             (case fetch_detail_link L W c d of
                                Inl e \<Rightarrow> Inl e | Inr link \<Rightarrow> Inr (link, n + 1))
                           else Inr (d, n)
               | None \<Rightarrow> Inr (d, n)) of
           Inl e \<Rightarrow> Inl e
         | Inr (final_url, n') \<Rightarrow>
             parse_rows L W now cfd k trs
               (acc @ [\<lparr>title = clean_text ttl, url = final_url,
                        size_str = guess_size (clean_text sz),
                        quality = guess_quality (clean_text ttl),
                        date = isoformat L dt, source = u ''comicat.org''\<rparr>]) n')))"
  by (simp add: sample_row_cells sample_row_anchor Let_def cong: sum.case_cong option.case_cong)

declare parse_rows.simps(2) [simp del]

lemma is_tr_sample [simp]:
  "is_tag (u ''tr'') (sample_row tm h ttl sz)" "is_tag (u ''tr'') row_no_link"
  by (simp_all add: sample_row_def row_no_link_def)

lemma sample_title_nonempty [simp]: "sample_title \<noteq> []" "[] \<noteq> sample_title"
  by (simp_all add: sample_title_def)

lemmas row_eval = parse_today_table_def sample_listing_rows row1_def row2_def row3_def
  row_blank_title_def row_bad_time_def row_na_size_def row_blank_size_def parse_rows_sample_row
  clean_text_samples parse_today_2141 parse_today_2500 strip_samples guess_samples
  guess_size_empty sample_sizes(5) fetch_sample fetch_closed show_url_not_listing
  isoformat_sample sample_record_def

lemma three_rows_cap_two:
  "parse_today_table (sample_lib (sample_listing [row1, row2, row3]) detail_dom)
     (sample_world good_page []) good_page (Some open_client) 2 =
   Inr [sample_record sample_title sample_magnet, sample_record sample_title sample_magnet,
        sample_record sample_title (show_url ''show-3.html'')]"
  by (simp add: row_eval)

lemma one_row_open_client:
  "parse_today_table (sample_lib (sample_listing [row1]) detail_dom)
     (sample_world good_page []) good_page (Some open_client) 12 =
   Inr [sample_record sample_title sample_magnet]"
  by (simp add: row_eval)

lemma blank_title_row:
  "parse_today_table (sample_lib (sample_listing [row1, row_blank_title]) detail_dom)
     (sample_world good_page []) good_page None 12 =
   Inr [sample_record sample_title (show_url ''show-1.html''),
        sample_record [] (show_url ''show-4.html'')]"
  by (simp add: row_eval)

lemma bad_time_row_raises:
  "parse_today_table (sample_lib (sample_listing [row1, row_bad_time, row3]) detail_dom)
     (sample_world good_page []) good_page (Some open_client) 2 = Inl ValueError"
  by (simp add: row_eval)

lemma size_rows:
  "parse_today_table (sample_lib (sample_listing [row1, row_na_size, row_blank_size]) detail_dom)
     (sample_world good_page []) good_page None 12 =
   Inr [sample_record sample_title (show_url ''show-1.html''),
        (sample_record sample_title (show_url ''show-5.html''))\<lparr>size_str := u ''n/a''\<rparr>,
        (sample_record sample_title (show_url ''show-6.html''))\<lparr>size_str := unknown_size\<rparr>]"
  by (simp add: row_eval)

lemma no_link_row_raises:
  "parse_today_table (sample_lib (sample_listing [row_no_link, row1]) detail_dom)
     (sample_world good_page []) good_page None 12 = Inl ValueError"
  by (simp add: parse_today_table_def sample_listing_rows row_no_link_def find_all_direct_def td_def
      clean_text_samples parse_today_2500 parse_rows.simps(2) Let_def)

lemma retained_samples:
  "retained row1" "retained row2" "retained row3" "retained row_blank_title"
  "retained row_bad_time" "retained row_na_size" "retained row_blank_size"
  by (simp_all add: retained_def cells_def row1_def row2_def row3_def row_blank_title_def
      row_bad_time_def row_na_size_def row_blank_size_def sample_row_cells sample_row_anchor)

lemma sample_table_rows:
  "list_all (is_tag (u ''tr'')) rows \<Longrightarrow> table_rows (sample_lib (sample_listing rows) b) h = rows"
  by (simp add: table_rows_def sample_listing_rows list_all_iff)

lemma sample_cells:
  "cells (sample_row tm h ttl sz) ! 0 = td [Text tm]"
  "cells (sample_row tm h ttl sz) ! 3 = td [Text sz]"
  "row_anchor (sample_row tm h ttl sz) = Tag (u ''a'') [(u ''href'', h)] [Text ttl]"
  by (simp_all add: cells_def row_anchor_def sample_row_cells sample_row_anchor)

lemma not_retained_no_link: "\<not> retained row_no_link"
  by (simp add: retained_def cells_def row_no_link_def dom_eval)

section \<open>The claims about the table and the resolver\<close>

theorem fetch_detail_link_never_raises_witness:
  "str_lower (sample_lib (sample_listing []) detail_dom) [] = [] \<and>
   client_get (sample_world good_page []) open_client (show_url ''show-1.html'') =
     Inr \<lparr>status_code = 200, resp_text = []\<rparr> \<and>
   page_hrefs (sample_lib (sample_listing []) detail_dom) [] =
     [u ''/about.html'', sample_magnet, u ''/file.torrent''] \<and>
   fetch_detail_link (sample_lib (sample_listing []) detail_dom) (sample_world good_page [])
     open_client (show_url ''show-1.html'') = Inr sample_magnet"
proof -
  let ?L = "sample_lib (sample_listing []) detail_dom"
  let ?W = "sample_world good_page []"
  have h: "str_lower ?L [] = []" by simp
  have g: "client_get ?W open_client (show_url ''show-1.html'') = Inr \<lparr>status_code = 200, resp_text = []\<rparr>"
    by (simp add: client_get_def show_url_not_listing)
  have p: "page_hrefs ?L [] = [u ''/about.html'', sample_magnet, u ''/file.torrent'']"
    by (rule detail_hrefs)
  from fetch_detail_link_never_raises[OF h, of ?W open_client "show_url ''show-1.html''"]
  obtain link i where l: "fetch_detail_link ?L ?W open_client (show_url ''show-1.html'') = Inr link"
    and i: "i < 3" "link = [u ''/about.html'', sample_magnet, u ''/file.torrent''] ! i"
      "is_magnet ([u ''/about.html'', sample_magnet, u ''/file.torrent''] ! i)"
    using magnet_samples(2) by (auto simp: g p)
  from i have "link = sample_magnet"
    using magnet_samples by (auto simp: less_Suc_eq numeral_3_eq_3)
  with l h g p show ?thesis by simp
qed

lemma cap_on_returned_records:
  assumes "parse_today_table lib w html (Some c) max_detail = Inr rs"
  shows "length rs = length (filter retained (table_rows lib html)) \<and>
    (\<forall>i < length rs.
       \<exists>d. detail_url_of lib (filter retained (table_rows lib html) ! i) = Inr d \<and>
           (if int i < max_detail then fetch_detail_link lib w c d = Inr (url (rs ! i))
            else url (rs ! i) = d))"
  using parse_today_table_Inr[OF assms] by (auto simp: row_gives_def)

text \<open>
  Claim C5 fails on the code. The time cell of a row is parsed before its URL is chosen,
  and a time cell out of range raises \<open>ValueError\<close> out of the whole function. On a table
  of three retained rows whose second has the time "today 25:00", with an open client
  and the cap 2, no row receives a URL: not the resolver's result for the first two, not
  the detail URL for the third. The same table with the time "today 21:41" in the second
  row gives the magnet link to the first two records and the detail URL to the third.
\<close>

theorem detail_fetch_cap_raises:
  "table_rows (sample_lib (sample_listing [row1, row_bad_time, row3]) detail_dom) good_page =
     [row1, row_bad_time, row3] \<and>
   retained row1 \<and> retained row_bad_time \<and> retained row3 \<and>
   parse_today_table (sample_lib (sample_listing [row1, row_bad_time, row3]) detail_dom)
     (sample_world good_page []) good_page (Some open_client) 2 = Inl ValueError \<and>
   parse_today_table (sample_lib (sample_listing [row1, row2, row3]) detail_dom)
     (sample_world good_page []) good_page (Some open_client) 2 =
   Inr [sample_record sample_title sample_magnet, sample_record sample_title sample_magnet,
        sample_record sample_title (show_url ''show-3.html'')]"
proof -
  have "table_rows (sample_lib (sample_listing [row1, row_bad_time, row3]) detail_dom) good_page =
     [row1, row_bad_time, row3]"
    by (simp add: sample_table_rows row1_def row_bad_time_def row3_def)
  thus ?thesis by (simp add: retained_samples bad_time_row_raises three_rows_cap_two)
qed

text \<open>
  Claim C9, as amended. Every record that \<open>_parse_today_table\<close> returns has a size and a
  quality that are not empty. The quality is what \<open>_guess_quality\<close> finds in the title,
  "unknown" when the title holds no quality tag. The size is what \<open>_guess_size\<close> finds in
  the cleaned text of the size cell: the sentinel when that text is empty, that text
  unchanged when it is not empty and holds no size token. The title is the cleaned text
  of the row's title link, which is empty when that text is empty or white space only.
\<close>

theorem record_fields:
  assumes "parse_today_table lib w html cfd k = Inr rs"
  shows "\<forall>i < length rs.
     (let tr = filter retained (table_rows lib html) ! i;
          size_text = clean_text (get_text (cells tr ! 3));
          r = rs ! i
      in title r = clean_text (get_text (row_anchor tr)) \<and>
         size_str r \<noteq> [] \<and> quality r \<noteq> [] \<and>
         size_str r = guess_size size_text \<and> quality r = guess_quality (title r) \<and>
         (size_text = [] \<longrightarrow> size_str r = unknown_size) \<and>
         (size_text \<noteq> [] \<and> \<not> occurs True size_pattern size_text \<longrightarrow> size_str r = size_text) \<and>
         (\<not> occurs True pat_2160 (title r) \<and> \<not> occurs True pat_1080 (title r) \<and>
            \<not> occurs True pat_720 (title r) \<longrightarrow> quality r = u ''unknown''))"
proof (intro allI impI)
  fix i assume i: "i < length rs"
  let ?tr = "filter retained (table_rows lib html) ! i"
  let ?s = "clean_text (get_text (cells ?tr ! 3))"
  from parse_today_table_Inr[OF assms] i
  have g: "row_gives lib w (clock w) cfd k (int i) ?tr (rs ! i)" by blast
  hence t: "title (rs ! i) = clean_text (get_text (row_anchor ?tr))"
    and s: "size_str (rs ! i) = guess_size ?s"
    and q: "quality (rs ! i) = guess_quality (title (rs ! i))"
    by (simp_all add: row_gives_def)
  have "size_str (rs ! i) \<noteq> []" "quality (rs ! i) \<noteq> []"
    using s q guess_size_nonempty guess_quality_nonempty by simp_all
  moreover have "?s = [] \<longrightarrow> size_str (rs ! i) = unknown_size"
    using s guess_size_empty by simp
  moreover have "?s \<noteq> [] \<and> \<not> occurs True size_pattern ?s \<longrightarrow> size_str (rs ! i) = ?s"
    using s guess_size_no_token[of ?s] by simp
  moreover have "\<not> occurs True pat_2160 (title (rs ! i)) \<and> \<not> occurs True pat_1080 (title (rs ! i)) \<and>
            \<not> occurs True pat_720 (title (rs ! i)) \<longrightarrow> quality (rs ! i) = u ''unknown''"
    using q guess_quality_no_tag[of "title (rs ! i)"] by simp
  ultimately show "let tr = ?tr; size_text = clean_text (get_text (cells tr ! 3)); r = rs ! i
      in title r = clean_text (get_text (row_anchor tr)) \<and>
         size_str r \<noteq> [] \<and> quality r \<noteq> [] \<and>
         size_str r = guess_size size_text \<and> quality r = guess_quality (title r) \<and>
         (size_text = [] \<longrightarrow> size_str r = unknown_size) \<and>
         (size_text \<noteq> [] \<and> \<not> occurs True size_pattern size_text \<longrightarrow> size_str r = size_text) \<and>
         (\<not> occurs True pat_2160 (title r) \<and> \<not> occurs True pat_1080 (title r) \<and>
            \<not> occurs True pat_720 (title r) \<longrightarrow> quality r = u ''unknown'')"
    using t s q by (simp add: Let_def)
qed

text \<open>
  Claim C9 as stated fails. A retained row whose title link has only blanks as its text
  gives a record with the empty title; and a retained row whose size cell reads "n/a"
  gives a record whose size is "n/a", a size that is not resolved and is not the
  sentinel.
\<close>

theorem empty_title_counterexample:
  "parse_today_table (sample_lib (sample_listing [row1, row_blank_title]) detail_dom)
     (sample_world good_page []) good_page None 12 =
   Inr [sample_record sample_title (show_url ''show-1.html''),
        sample_record [] (show_url ''show-4.html'')] \<and>
   retained row_blank_title \<and>
   title (sample_record [] (show_url ''show-4.html'')) = [] \<and>
   parse_today_table (sample_lib (sample_listing [row1, row_na_size, row_blank_size]) detail_dom)
     (sample_world good_page []) good_page None 12 =
   Inr [sample_record sample_title (show_url ''show-1.html''),
        (sample_record sample_title (show_url ''show-5.html''))\<lparr>size_str := u ''n/a''\<rparr>,
        (sample_record sample_title (show_url ''show-6.html''))\<lparr>size_str := unknown_size\<rparr>] \<and>
   retained row_na_size \<and>
   size_str ((sample_record sample_title (show_url ''show-5.html''))\<lparr>size_str := u ''n/a''\<rparr>) = u ''n/a'' \<and>
   re_search True size_pattern (u ''n/a'') = None \<and>
   u ''n/a'' \<noteq> unknown_size"
  by (simp add: blank_title_row size_rows retained_samples sample_sizes)
    (simp add: sample_record_def unknown_size_def u_def)

theorem record_fields_witness:
  "parse_today_table (sample_lib (sample_listing [row1, row_blank_title]) detail_dom)
     (sample_world good_page []) good_page None 12 =
   Inr [sample_record sample_title (show_url ''show-1.html''),
        sample_record [] (show_url ''show-4.html'')] \<and>
   title (sample_record [] (show_url ''show-4.html'')) = clean_text (u ''  '') \<and>
   size_str (sample_record [] (show_url ''show-4.html'')) = guess_size sample_size \<and>
   quality (sample_record [] (show_url ''show-4.html'')) = u ''unknown'' \<and>
   parse_today_table (sample_lib (sample_listing [row1, row_na_size, row_blank_size]) detail_dom)
     (sample_world good_page []) good_page None 12 =
   Inr [sample_record sample_title (show_url ''show-1.html''),
        (sample_record sample_title (show_url ''show-5.html''))\<lparr>size_str := u ''n/a''\<rparr>,
        (sample_record sample_title (show_url ''show-6.html''))\<lparr>size_str := unknown_size\<rparr>] \<and>
   size_str ((sample_record sample_title (show_url ''show-5.html''))\<lparr>size_str := u ''n/a''\<rparr>) =
     guess_size (u ''n/a'') \<and>
   size_str ((sample_record sample_title (show_url ''show-6.html''))\<lparr>size_str := unknown_size\<rparr>) =
     guess_size (clean_text (get_text (cells row_blank_size ! 3)))"
proof -
  let ?L1 = "sample_lib (sample_listing [row1, row_blank_title]) detail_dom"
  let ?L2 = "sample_lib (sample_listing [row1, row_na_size, row_blank_size]) detail_dom"
  have "table_rows ?L1 good_page = [row1, row_blank_title]"
    by (simp add: sample_table_rows row1_def row_blank_title_def)
  hence r1: "filter retained (table_rows ?L1 good_page) = [row1, row_blank_title]"
    by (simp add: retained_samples)
  have "table_rows ?L2 good_page = [row1, row_na_size, row_blank_size]"
    by (simp add: sample_table_rows row1_def row_na_size_def row_blank_size_def)
  hence r2: "filter retained (table_rows ?L2 good_page) = [row1, row_na_size, row_blank_size]"
    by (simp add: retained_samples)
  have a: "title (sample_record [] (show_url ''show-4.html'')) = clean_text (u ''  '') \<and>
     size_str (sample_record [] (show_url ''show-4.html'')) = guess_size sample_size \<and>
     quality (sample_record [] (show_url ''show-4.html'')) = u ''unknown''"
    using record_fields[OF blank_title_row, THEN spec, of 1]
    by (simp add: r1 Let_def)
      (simp add: row_blank_title_def sample_cells sample_row_anchor guess_samples clean_text_samples
        sample_record_def)
  have b: "size_str ((sample_record sample_title (show_url ''show-5.html''))\<lparr>size_str := u ''n/a''\<rparr>) =
     guess_size (u ''n/a'')"
    using record_fields[OF size_rows, THEN spec, of 1]
    by (simp add: r2 Let_def)
      (simp add: row_na_size_def sample_cells sample_row_anchor clean_text_samples)
  have c: "size_str ((sample_record sample_title (show_url ''show-6.html''))\<lparr>size_str := unknown_size\<rparr>) =
     guess_size (clean_text (get_text (cells row_blank_size ! 3)))"
    using record_fields[OF size_rows, THEN spec, of 2]
    by (simp add: r2 Let_def)
  from a b c blank_title_row size_rows show ?thesis by simp
qed



text \<open>
  Claim C4 fails on the code. The time cell of a row is parsed before the row is
  tested for its title link, so a row with four cells, no link and a time cell out of
  range is not skipped: the \<open>ValueError\<close> of \<open>_parse_cn_time\<close> ends the whole function, and
  the retained row after it gives no record.
\<close>

theorem row_without_link_not_skipped:
  "\<not> retained row_no_link \<and> retained row1 \<and>
   parse_today_table (sample_lib (sample_listing [row_no_link, row1]) detail_dom)
     (sample_world good_page []) good_page None 12 = Inl ValueError"
  by (simp add: not_retained_no_link retained_samples no_link_row_raises)

section \<open>The entry point and the endpoint\<close>

lemma parse_rows_closed:
  "is_closed c \<Longrightarrow>
     parse_rows lib w now (Some c) k rows acc n = parse_rows lib w now None k rows acc m"
proof (induction rows arbitrary: acc n m)
  case Nil
  then show ?case by simp
next
  case (Cons tr trs)
  note ih = Cons.IH[OF Cons.prems]
  show ?case
    by (simp add: parse_rows.simps(2) Let_def fetch_closed[OF Cons.prems] ih[of _ n m] ih[of _ "n + 1" m]
        split: sum.splits option.splits)
qed

lemma parse_today_table_closed:
  "is_closed c \<Longrightarrow> parse_today_table lib w html (Some c) k = parse_today_table lib w html None k"
  by (simp add: parse_today_table_def parse_rows_closed[of c _ _ _ _ _ _ _ 0] split: option.splits)

lemma make_headers_sample [simp]: "make_headers (sample_world p q) = base_headers"
  by (simp add: make_headers_def strip_def)

lemma base_headers_encodable:
  "list_all (\<lambda>(k, v). ascii_encodable k \<and> ascii_encodable v) base_headers"
  by (simp add: base_headers_def ascii_encodable_def u_def)

lemma new_client_sample [simp]:
  "new_client base_headers = Inr \<lparr>headers = base_headers, is_closed = False\<rparr>"
  using base_headers_encodable by (simp add: new_client_def)

lemma newlines_blocked_page: "universal_newlines blocked_page = blocked_page"
  by (simp add: blocked_page_def u_def)

lemma with_block_good:
  "with_block (sample_lib a b) (sample_world good_page q)
     \<lparr>headers = base_headers, is_closed = False\<rparr> sample_disk =
   (Inr (Fall_through good_page Msg_ok), sample_disk)"
  by (simp add: with_block_def client_get_def captcha_samples write_snapshot_def sample_disk_def Let_def)

lemma with_block_blocked:
  "with_block (sample_lib a b) (sample_world blocked_page q)
     \<lparr>headers = base_headers, is_closed = False\<rparr> sample_disk =
   (Inr (Fall_through blocked_page Msg_used_cache), sample_disk\<lparr>content := Some blocked_page\<rparr>)"
  by (simp add: with_block_def client_get_def captcha_samples write_snapshot_def sample_disk_def Let_def
      newlines_blocked_page)

lemma pages_differ: "blocked_page \<noteq> good_page"
  by (simp add: blocked_page_def good_page_def u_def)

lemma one_row_no_client:
  "parse_today_table (sample_lib (sample_listing [row1]) detail_dom)
     (sample_world good_page []) good_page None 12 =
   Inr [sample_record sample_title (show_url ''show-1.html'')]"
  by (simp add: row_eval)

lemma two_rows_no_client:
  "parse_today_table (sample_lib (sample_listing [row1, row2]) detail_dom)
     (sample_world good_page []) good_page None 12 =
   Inr [sample_record sample_title (show_url ''show-1.html''),
        sample_record sample_title (show_url ''show-2.html'')]"
  by (simp add: row_eval)

lemma scrape_one_row:
  "scrape_comicat_today (sample_lib (sample_listing [row1]) detail_dom)
     (sample_world good_page []) sample_disk =
   (Inr ([sample_record sample_title (show_url ''show-1.html'')], Msg_ok), sample_disk)"
  by (simp add: scrape_comicat_today_def with_block_good parse_today_table_closed one_row_no_client)

lemma scrape_two_rows:
  "scrape_comicat_today (sample_lib (sample_listing [row1, row2]) detail_dom)
     (sample_world good_page []) sample_disk =
   (Inr ([sample_record sample_title (show_url ''show-1.html''),
          sample_record sample_title (show_url ''show-2.html'')], Msg_ok), sample_disk)"
  by (simp add: scrape_comicat_today_def with_block_good parse_today_table_closed two_rows_no_client)

lemma blocked_body_is_parsed:
  "client_get w c COMICAT_TODAY_URL = Inr resp \<Longrightarrow> looks_like_captcha lib (resp_text resp) \<Longrightarrow>
   writable d \<Longrightarrow> readable d \<Longrightarrow>
   with_block lib w c d =
     (Inr (Fall_through (universal_newlines (resp_text resp)) Msg_used_cache),
      d\<lparr>content := Some (resp_text resp)\<rparr>)"
  by (simp add: with_block_def write_snapshot_def Let_def)

lemma scrape_parses_without_resolver:
  "new_client (make_headers w) = Inr c \<Longrightarrow>
   with_block lib w c d = (Inr (Fall_through html msg), d') \<Longrightarrow>
   fst (scrape_comicat_today lib w d) =
     (case parse_today_table lib w html None 12 of
        Inl e \<Rightarrow> Inl e
      | Inr items \<Rightarrow> if items = [] then Inr ([], Msg_no_items) else Inr (take 5 items, msg))"
  by (simp add: scrape_comicat_today_def parse_today_table_closed split: sum.splits)

lemma scrape_cookie_not_ascii:
  "\<not> ascii_encodable (strip (env_cookie w)) \<Longrightarrow>
     scrape_comicat_today lib w d = (Inl UnicodeEncodeError, d)"
  by (auto simp: scrape_comicat_today_def new_client_def make_headers_def ascii_encodable_def Let_def)

text \<open>
  Claim C1 fails on the code. The page is written to the snapshot file before it is
  tested, so when the page is a challenge and the file can be written, the file that
  is then read back holds that very page: the HTML that falls through to the parser is
  the blocked page, and the snapshot of the earlier good fetch is gone.
\<close>

theorem blocked_page_overwrites_snapshot:
  "content sample_disk = Some good_page \<and> blocked_page \<noteq> good_page \<and>
   looks_like_captcha (sample_lib (sample_listing []) detail_dom) blocked_page \<and>
   with_block (sample_lib (sample_listing []) detail_dom) (sample_world blocked_page [])
     \<lparr>headers = make_headers (sample_world blocked_page []), is_closed = False\<rparr> sample_disk =
   (Inr (Fall_through blocked_page Msg_used_cache), sample_disk\<lparr>content := Some blocked_page\<rparr>)"
  by (simp add: with_block_blocked pages_differ captcha_samples) (simp add: sample_disk_def)

text \<open>
  Claim C3 fails on the code. The table is parsed after the \<open>with\<close> block has closed the
  client, so every detail fetch meets a closed client, raises, and falls back to the
  detail URL: the entry point returns the detail URL where the same parser with an open
  client returns the magnet link of the detail page.
\<close>

theorem detail_fetch_after_close:
  "fst (scrape_comicat_today (sample_lib (sample_listing [row1]) detail_dom)
     (sample_world good_page []) sample_disk) =
     Inr ([sample_record sample_title (show_url ''show-1.html'')], Msg_ok) \<and>
   parse_today_table (sample_lib (sample_listing [row1]) detail_dom)
     (sample_world good_page []) good_page (Some open_client) 12 =
     Inr [sample_record sample_title sample_magnet] \<and>
   sample_magnet \<noteq> show_url ''show-1.html''"
  by (simp add: scrape_one_row one_row_open_client) (simp add: sample_magnet_def show_url_def u_def)

lemma with_block_Return:
  "with_block lib w c d = (Inr (Return (items, msg)), d') \<Longrightarrow> items = []"
  by (auto simp: with_block_def Let_def split: sum.splits option.splits if_splits)

text \<open>
  Claim C2, as amended. When \<open>scrape_comicat_today\<close> does not raise and its list of
  records is not empty, the endpoint answers with the JSON array of all the records of
  the list, which are five at most, in their order.
\<close>

theorem scrape_latest_returns_list:
  assumes "fst (scrape_comicat_today lib w d) = Inr (items, msg)" and "items \<noteq> []"
  shows "scrape_latest lib w d = JArr (map info_json items) \<and> length items \<le> 5"
proof -
  have "scrape_latest lib w d = JArr (map info_json items)"
    using assms(1) by (simp add: scrape_latest_def tuple_is_empty_def)
  moreover have "length items \<le> 5"
    using assms
    by (auto simp: scrape_comicat_today_def Let_def dest: with_block_Return
        split: prod.splits sum.splits block_result.splits if_splits)
  ultimately show ?thesis by simp
qed

theorem scrape_latest_returns_list_witness:
  "fst (scrape_comicat_today (sample_lib (sample_listing [row1, row2]) detail_dom)
     (sample_world good_page []) sample_disk) =
     Inr ([sample_record sample_title (show_url ''show-1.html''),
          sample_record sample_title (show_url ''show-2.html'')], Msg_ok) \<and>
   scrape_latest (sample_lib (sample_listing [row1, row2]) detail_dom)
     (sample_world good_page []) sample_disk =
     JArr [info_json (sample_record sample_title (show_url ''show-1.html'')),
           info_json (sample_record sample_title (show_url ''show-2.html''))]"
proof -
  have e: "fst (scrape_comicat_today (sample_lib (sample_listing [row1, row2]) detail_dom)
     (sample_world good_page []) sample_disk) =
     Inr ([sample_record sample_title (show_url ''show-1.html''),
          sample_record sample_title (show_url ''show-2.html'')], Msg_ok)"
    by (simp add: scrape_two_rows)
  from scrape_latest_returns_list[OF e] e show ?thesis by simp
qed

text \<open>
  Claim C2 as stated fails: with two records in the list, the answer is the array of
  both, not the object of the first.
\<close>

theorem scrape_latest_not_first_record_counterexample:
  "scrape_latest (sample_lib (sample_listing [row1, row2]) detail_dom)
     (sample_world good_page []) sample_disk =
     JArr [info_json (sample_record sample_title (show_url ''show-1.html'')),
           info_json (sample_record sample_title (show_url ''show-2.html''))] \<and>
   scrape_latest (sample_lib (sample_listing [row1, row2]) detail_dom)
     (sample_world good_page []) sample_disk \<noteq>
     info_json (sample_record sample_title (show_url ''show-1.html''))"
  by (simp add: scrape_latest_def tuple_is_empty_def scrape_two_rows info_json_def)

lemma scrape_latest_empty_list:
  "fst (scrape_comicat_today lib w d) = Inr ([], msg) \<Longrightarrow> scrape_latest lib w d = JArr []"
  by (simp add: scrape_latest_def tuple_is_empty_def)

end
